theory Spec2Isabelle
  imports Complex_Main "HOL-Library.Sublist"
begin

section \<open>JavaScript values and coercions used by the worker\<close>

text \<open>
  A CSV row, as \<^verbatim>\<open>csv-parser\<close> hands it to the \<^verbatim>\<open>data\<close> handler of
  \<^verbatim>\<open>worker.js\<close>: an object whose keys are the header names and whose values are
  strings. A property the row does not have reads as \<^verbatim>\<open>undefined\<close>, modelled by
  \<open>None\<close>.
\<close>

type_synonym row = "string \<rightharpoonup> string"

text \<open>
  A JavaScript number, as far as the worker can see one: \<^verbatim>\<open>NaN\<close>, an infinity
  (\<open>Infinity True\<close> is the negative one) or a finite value. The finite value is the exact
  decimal value of the text; rounding to the nearest double is not modelled, and
  \<^verbatim>\<open>-0\<close> is identified with \<^verbatim>\<open>0\<close>.
\<close>

datatype number = NaN | Infinity bool | Finite rat

text \<open>A \<^verbatim>\<open>Date\<close> object: its time value is \<^verbatim>\<open>NaN\<close> (an invalid date) or a
  number of milliseconds since the epoch.\<close>

datatype date = InvalidDate | ValidDate int

text \<open>Truthiness, for the operands the worker gives to \<^verbatim>\<open>||\<close> and \<^verbatim>\<open>?:\<close>.\<close>

definition truthy_string :: "string option \<Rightarrow> bool" where
  "truthy_string v = (case v of None \<Rightarrow> False | Some s \<Rightarrow> s \<noteq> [])"

definition truthy_number :: "number \<Rightarrow> bool" where
  "truthy_number v = (case v of NaN \<Rightarrow> False | Infinity _ \<Rightarrow> True | Finite q \<Rightarrow> q \<noteq> 0)"

text \<open>\<^verbatim>\<open>ToString\<close> of a row property: \<^verbatim>\<open>undefined\<close> becomes the text
  \<^verbatim>\<open>"undefined"\<close>.\<close>

definition ToString :: "string option \<Rightarrow> string" where
  "ToString v = (case v of None \<Rightarrow> ''undefined'' | Some s \<Rightarrow> s)"

text \<open>White space that \<^verbatim>\<open>parseInt\<close> and \<^verbatim>\<open>parseFloat\<close> skip at the start of
  the text (the ASCII part of \<^verbatim>\<open>StrWhiteSpaceChar\<close>: TAB, LF, VT, FF, CR, space).\<close>

definition isWhiteSpace :: "char \<Rightarrow> bool" where
  "isWhiteSpace c = (c \<in> set [CHR 0x09, CHR 0x0A, CHR 0x0B, CHR 0x0C, CHR 0x0D, CHR '' ''])"

definition trimStart :: "string \<Rightarrow> string" where
  "trimStart s = dropWhile isWhiteSpace s"

fun index_of :: "'a \<Rightarrow> 'a list \<Rightarrow> nat option" where
  "index_of x [] = None"
| "index_of x (y # ys) = (if x = y then Some 0 else map_option Suc (index_of x ys))"

text \<open>The value of a digit in radix \<open>R\<close> (\<open>R \<le> 16\<close>), \<open>None\<close> when the character
  is not a digit of that radix.\<close>

definition digitValue :: "nat \<Rightarrow> char \<Rightarrow> nat option" where
  "digitValue R c =
     (case index_of c ''0123456789abcdef'' of
        Some v \<Rightarrow> if v < R then Some v else None
      | None \<Rightarrow>
          (case index_of c ''ABCDEF'' of
             Some v \<Rightarrow> if v + 10 < R then Some (v + 10) else None
           | None \<Rightarrow> None))"

definition isDigit :: "nat \<Rightarrow> char \<Rightarrow> bool" where
  "isDigit R c = (digitValue R c \<noteq> None)"

text \<open>The mathematical value of a run of digits, most significant first.\<close>

definition digitsValue :: "nat \<Rightarrow> string \<Rightarrow> nat" where
  "digitsValue R ds =
     foldl (\<lambda>acc c. acc * R + (case digitValue R c of Some v \<Rightarrow> v | None \<Rightarrow> 0)) 0 ds"

text \<open>
  \<^verbatim>\<open>parseInt(string)\<close> with no radix, after ECMAScript: skip leading white space, take
  a sign, take a \<^verbatim>\<open>0x\<close>/\<^verbatim>\<open>0X\<close> prefix (radix 16, otherwise radix 10), read the
  longest run of digits, and answer \<^verbatim>\<open>NaN\<close> when that run is empty.
\<close>

definition parseInt :: "string option \<Rightarrow> number" where
  "parseInt string =
     (let S = trimStart (ToString string);
          sign = (if S \<noteq> [] \<and> hd S = CHR ''-'' then - 1 else (1::int));
          S = (if S \<noteq> [] \<and> (hd S = CHR ''+'' \<or> hd S = CHR ''-'') then tl S else S);
          hex = (take 2 S = ''0x'' \<or> take 2 S = ''0X'');
          R = (if hex then 16 else 10);
          S = (if hex then drop 2 S else S);
          Z = takeWhile (isDigit R) S
      in if Z = [] then NaN else Finite (of_int (sign * int (digitsValue R Z))))"

text \<open>The exponent of a \<^verbatim>\<open>StrDecimalLiteral\<close>: \<^verbatim>\<open>e\<close> or \<^verbatim>\<open>E\<close>, an optional sign
  and at least one digit; without a digit there is no exponent part and the value is 0.\<close>

definition exponentPart :: "string \<Rightarrow> int" where
  "exponentPart S =
     (if S \<noteq> [] \<and> (hd S = CHR ''e'' \<or> hd S = CHR ''E'') then
        (let S1 = tl S;
             neg = (S1 \<noteq> [] \<and> hd S1 = CHR ''-'');
             S2 = (if S1 \<noteq> [] \<and> (hd S1 = CHR ''+'' \<or> hd S1 = CHR ''-'') then tl S1 else S1);
             ds = takeWhile (isDigit 10) S2
         in if neg then - int (digitsValue 10 ds) else int (digitsValue 10 ds))
      else 0)"

definition scale10 :: "rat \<Rightarrow> int \<Rightarrow> rat" where
  "scale10 q e = (if 0 \<le> e then q * 10 ^ nat e else q / 10 ^ nat (- e))"

text \<open>
  \<^verbatim>\<open>parseFloat(string)\<close>, after ECMAScript: skip leading white space and read the longest
  prefix that is a \<^verbatim>\<open>StrDecimalLiteral\<close> (a sign, then \<^verbatim>\<open>Infinity\<close> or digits with an
  optional fraction and exponent); \<^verbatim>\<open>NaN\<close> when there is no such prefix.
\<close>

definition parseFloat :: "string option \<Rightarrow> number" where
  "parseFloat string =
     (let S = trimStart (ToString string);
          neg = (S \<noteq> [] \<and> hd S = CHR ''-'');
          S = (if S \<noteq> [] \<and> (hd S = CHR ''+'' \<or> hd S = CHR ''-'') then tl S else S)
      in if take 8 S = ''Infinity'' then Infinity neg
         else
           (let ip = takeWhile (isDigit 10) S;
                S1 = dropWhile (isDigit 10) S;
                dot = (S1 \<noteq> [] \<and> hd S1 = CHR ''.'');
                fp = (if dot then takeWhile (isDigit 10) (tl S1) else []);
                S2 = (if dot then dropWhile (isDigit 10) (tl S1) else S1);
                m = of_nat (digitsValue 10 ip) + of_nat (digitsValue 10 fp) / 10 ^ length fp
            in if ip = [] \<and> fp = [] then NaN
               else Finite (scale10 (if neg then - m else m) (exponentPart S2))))"

text \<open>
  \<^verbatim>\<open>new Date(text)\<close>. What \<^verbatim>\<open>Date.parse\<close> recognises beyond the ISO format is left
  to the host by ECMAScript, so the host's parser is a parameter \<open>dp\<close>: it answers the
  time value, or \<open>None\<close> for \<^verbatim>\<open>NaN\<close> (a text it does not recognise).
\<close>

type_synonym date_parser = "string \<Rightarrow> int option"

definition newDate :: "date_parser \<Rightarrow> string \<Rightarrow> date" where
  "newDate dp text = (case dp text of None \<Rightarrow> InvalidDate | Some t \<Rightarrow> ValidDate t)"

text \<open>The coercions as \<^verbatim>\<open>processFile\<close> writes them in the object literals it hands to
  \<^verbatim>\<open>create\<close>.\<close>

text \<open>\<^verbatim>\<open>v || null\<close> on a row property.\<close>

definition string_or_null :: "string option \<Rightarrow> string option" where
  "string_or_null v = (if truthy_string v then v else None)"

text \<open>\<^verbatim>\<open>v ? new Date(v) : null\<close> on a row property.\<close>

definition date_or_null :: "date_parser \<Rightarrow> string option \<Rightarrow> date option" where
  "date_or_null dp v =
     (case v of None \<Rightarrow> None | Some text \<Rightarrow> if truthy_string v then Some (newDate dp text) else None)"

text \<open>\<^verbatim>\<open>parseFloat(v) || 0\<close>.\<close>

definition float_or_zero :: "string option \<Rightarrow> number" where
  "float_or_zero v = (if truthy_number (parseFloat v) then parseFloat v else Finite 0)"

text \<open>\<^verbatim>\<open>parseInt(v) || null\<close>.\<close>

definition int_or_null :: "string option \<Rightarrow> number option" where
  "int_or_null v = (if truthy_number (parseInt v) then Some (parseInt v) else None)"

section \<open>The entity store\<close>

text \<open>
  The six models of \<^verbatim>\<open>worker.js\<close> (lines 15 to 73). A document is the store-assigned
  \<^verbatim>\<open>_id\<close> paired with the fields of its schema; a field that is \<^verbatim>\<open>null\<close> or not
  set is \<open>None\<close>. What \<^verbatim>\<open>findOne\<close> and \<^verbatim>\<open>create\<close> do is the behaviour of the mongoose
  library and of the database server, not code of the repository; it is written out
  here as far as \<^verbatim>\<open>processFile\<close> depends on it.
\<close>

datatype kind = KAgent | KUser | KAccount | KCategory | KCarrier | KPolicy

type_synonym oid = nat

type_synonym 'f doc = "oid \<times> 'f"

record Agent =
  Agent_name :: "string option"
  Agent_agency_id :: "string option"

record User =
  User_firstname :: "string option"
  User_dob :: "date option"
  User_address :: "string option"
  User_phone :: "string option"
  User_state :: "string option"
  User_zip :: "string option"
  User_email :: "string option"
  User_gender :: "string option"
  User_userType :: "string option"
  User_city :: "string option"

record Account =
  Account_name :: "string option"
  Account_type :: "string option"
  Account_user_id :: "oid option"

record Category =
  Category_name :: "string option"

record Carrier =
  Carrier_name :: "string option"

record Policy =
  Policy_policy_number :: "string option"
  Policy_policy_start_date :: "date option"
  Policy_policy_end_date :: "date option"
  Policy_premium_amount :: number
  Policy_policy_type :: "string option"
  Policy_policy_mode :: "number option"
  Policy_producer :: "string option"
  Policy_csr :: "string option"
  Policy_primary :: bool
  Policy_applicant_id :: "string option"
  Policy_hasActive :: bool
  Policy_premium_amount_written :: number
  Policy_user_id :: "oid option"
  Policy_account_id :: "oid option"
  Policy_category_id :: "oid option"
  Policy_carrier_id :: "oid option"
  Policy_agent_id :: "oid option"

text \<open>The database \<^verbatim>\<open>insurance_db\<close>: one collection per model, in insertion order, and
  the source of fresh \<^verbatim>\<open>_id\<close>s.\<close>

record store =
  Agents :: "Agent doc list"
  Users :: "User doc list"
  Accounts :: "Account doc list"
  Categories :: "Category doc list"
  Carriers :: "Carrier doc list"
  Policies :: "Policy doc list"
  nextId :: oid

text \<open>
  What a store call can throw. A \<open>ValidationError\<close> is what mongoose raises before
  writing when a document breaks its schema (\<^verbatim>\<open>required: true\<close>, or a value that does
  not cast to the path's type); it lists the failing paths. A \<open>DuplicateKeyError\<close> is the
  server's rejection of an insert that breaks a \<^verbatim>\<open>unique: true\<close> index. \<open>Error\<close> is any
  other error object, with its message.
\<close>

datatype path_error = Required string | CastToDateFailed string

datatype error =
    ValidationError kind "path_error list"
  | DuplicateKeyError kind string "string option"
  | Error string

definition modelName :: "kind \<Rightarrow> string" where
  "modelName k =
     (case k of KAgent \<Rightarrow> ''Agent'' | KUser \<Rightarrow> ''User'' | KAccount \<Rightarrow> ''Account''
      | KCategory \<Rightarrow> ''Category'' | KCarrier \<Rightarrow> ''Carrier'' | KPolicy \<Rightarrow> ''Policy'')"

definition collectionName :: "kind \<Rightarrow> string" where
  "collectionName k =
     (case k of KAgent \<Rightarrow> ''agents'' | KUser \<Rightarrow> ''users'' | KAccount \<Rightarrow> ''accounts''
      | KCategory \<Rightarrow> ''categories'' | KCarrier \<Rightarrow> ''carriers'' | KPolicy \<Rightarrow> ''policies'')"

definition path_message :: "path_error \<Rightarrow> string" where
  "path_message pe =
     (case pe of
        Required p \<Rightarrow> p @ '': Path '' @ p @ '' is required.''
      | CastToDateFailed p \<Rightarrow> p @ '': Cast to date failed for value Invalid Date at path '' @ p)"

fun join :: "string \<Rightarrow> string list \<Rightarrow> string" where
  "join sep [] = []"
| "join sep [x] = x"
| "join sep (x # y # ys) = x @ sep @ join sep (y # ys)"

text \<open>\<^verbatim>\<open>err.message\<close> (the library's wording, without its quotation marks).\<close>

definition message :: "error \<Rightarrow> string" where
  "message e =
     (case e of
        ValidationError k pes \<Rightarrow>
          modelName k @ '' validation failed: '' @ join '', '' (map path_message pes)
      | DuplicateKeyError k p v \<Rightarrow>
          ''E11000 duplicate key error collection: insurance_db.'' @ collectionName k @ '' index: ''
            @ p @ ''_1 dup key: { '' @ p @ '': '' @ ToString v @ '' }''
      | Error m \<Rightarrow> m)"

text \<open>
  \<^verbatim>\<open>Model.findOne(filter)\<close>: the first document of the collection, in insertion order,
  whose fields satisfy the filter. All filters of the worker are equalities on fields;
  a filter value that is \<^verbatim>\<open>undefined\<close> reaches the server as \<^verbatim>\<open>null\<close> and matches a
  field that is null or not set, which is equality on \<open>None\<close>.
\<close>

definition findOne :: "'f doc list \<Rightarrow> ('f \<Rightarrow> bool) \<Rightarrow> 'f doc option" where
  "findOne coll conditions = find (\<lambda>d. conditions (snd d)) coll"

text \<open>Schema checks. \<^verbatim>\<open>required: true\<close> on a String path rejects a value that is
  missing, null or the empty string; a Date path rejects an invalid date.\<close>

definition required :: "string \<Rightarrow> string option \<Rightarrow> path_error list" where
  "required p v = (case v of None \<Rightarrow> [Required p] | Some s \<Rightarrow> if s = [] then [Required p] else [])"

definition castDate :: "string \<Rightarrow> date option \<Rightarrow> path_error list" where
  "castDate p v = (case v of Some InvalidDate \<Rightarrow> [CastToDateFailed p] | _ \<Rightarrow> [])"

definition Agent_validate :: "Agent \<Rightarrow> path_error list" where
  "Agent_validate obj = required ''name'' (Agent_name obj)"

definition User_validate :: "User \<Rightarrow> path_error list" where
  "User_validate obj = required ''firstname'' (User_firstname obj) @ castDate ''dob'' (User_dob obj)"

definition Account_validate :: "Account \<Rightarrow> path_error list" where
  "Account_validate obj = required ''name'' (Account_name obj)"

definition Category_validate :: "Category \<Rightarrow> path_error list" where
  "Category_validate obj = required ''name'' (Category_name obj)"

definition Carrier_validate :: "Carrier \<Rightarrow> path_error list" where
  "Carrier_validate obj = required ''name'' (Carrier_name obj)"

definition Policy_validate :: "Policy \<Rightarrow> path_error list" where
  "Policy_validate obj =
     required ''policy_number'' (Policy_policy_number obj)
     @ castDate ''policy_start_date'' (Policy_policy_start_date obj)
     @ castDate ''policy_end_date'' (Policy_policy_end_date obj)"

text \<open>
  Inserting into one collection: the schema is validated first, then the unique index
  (when the schema declares one on path \<open>p\<close>, read by \<open>key\<close>) is checked against the
  documents already there, then the document is appended under the fresh \<^verbatim>\<open>_id\<close>.
\<close>

definition insertDoc ::
  "kind \<Rightarrow> ('f \<Rightarrow> path_error list) \<Rightarrow> (string \<times> ('f \<Rightarrow> string option)) option \<Rightarrow>
     oid \<Rightarrow> 'f doc list \<Rightarrow> 'f \<Rightarrow> error + 'f doc list" where
  "insertDoc k validate unique i coll obj =
     (if validate obj \<noteq> [] then Inl (ValidationError k (validate obj))
      else
        (case unique of
           None \<Rightarrow> Inr (coll @ [(i, obj)])
         | Some (p, key) \<Rightarrow>
             if \<exists>d \<in> set coll. key (snd d) = key obj then Inl (DuplicateKeyError k p (key obj))
             else Inr (coll @ [(i, obj)])))"

text \<open>\<^verbatim>\<open>Model.create(obj)\<close> for each model: the created document and the store after
  the write, or the error thrown (the store is then as before).\<close>

definition Agent_create :: "store \<Rightarrow> Agent \<Rightarrow> error + (Agent doc \<times> store)" where
  "Agent_create db obj =
     (case insertDoc KAgent Agent_validate None (nextId db) (Agents db) obj of
        Inl e \<Rightarrow> Inl e
      | Inr c \<Rightarrow> Inr ((nextId db, obj), db\<lparr>Agents := c, nextId := Suc (nextId db)\<rparr>))"

definition User_create :: "store \<Rightarrow> User \<Rightarrow> error + (User doc \<times> store)" where
  "User_create db obj =
     (case insertDoc KUser User_validate None (nextId db) (Users db) obj of
        Inl e \<Rightarrow> Inl e
      | Inr c \<Rightarrow> Inr ((nextId db, obj), db\<lparr>Users := c, nextId := Suc (nextId db)\<rparr>))"

definition Account_create :: "store \<Rightarrow> Account \<Rightarrow> error + (Account doc \<times> store)" where
  "Account_create db obj =
     (case insertDoc KAccount Account_validate None (nextId db) (Accounts db) obj of
        Inl e \<Rightarrow> Inl e
      | Inr c \<Rightarrow> Inr ((nextId db, obj), db\<lparr>Accounts := c, nextId := Suc (nextId db)\<rparr>))"

definition Category_create :: "store \<Rightarrow> Category \<Rightarrow> error + (Category doc \<times> store)" where
  "Category_create db obj =
     (case insertDoc KCategory Category_validate (Some (''name'', Category_name))
             (nextId db) (Categories db) obj of
        Inl e \<Rightarrow> Inl e
      | Inr c \<Rightarrow> Inr ((nextId db, obj), db\<lparr>Categories := c, nextId := Suc (nextId db)\<rparr>))"

definition Carrier_create :: "store \<Rightarrow> Carrier \<Rightarrow> error + (Carrier doc \<times> store)" where
  "Carrier_create db obj =
     (case insertDoc KCarrier Carrier_validate (Some (''name'', Carrier_name))
             (nextId db) (Carriers db) obj of
        Inl e \<Rightarrow> Inl e
      | Inr c \<Rightarrow> Inr ((nextId db, obj), db\<lparr>Carriers := c, nextId := Suc (nextId db)\<rparr>))"

definition Policy_create :: "store \<Rightarrow> Policy \<Rightarrow> error + (Policy doc \<times> store)" where
  "Policy_create db obj =
     (case insertDoc KPolicy Policy_validate (Some (''policy_number'', Policy_policy_number))
             (nextId db) (Policies db) obj of
        Inl e \<Rightarrow> Inl e
      | Inr c \<Rightarrow> Inr ((nextId db, obj), db\<lparr>Policies := c, nextId := Suc (nextId db)\<rparr>))"

section \<open>The worker: \<^verbatim>\<open>processFile\<close>\<close>

text \<open>The six counters of \<^verbatim>\<open>stats\<close>.\<close>

record Stats =
  agents :: nat
  users :: nat
  accounts :: nat
  categories :: nat
  carriers :: nat
  policies :: nat

definition stats0 :: Stats where
  "stats0 = \<lparr>agents = 0, users = 0, accounts = 0, categories = 0, carriers = 0, policies = 0\<rparr>"

text \<open>
  The state the \<^verbatim>\<open>for\<close> loop works on: the counters, the database, and (as a record of
  what happened, which the code does not keep) the store calls made so far, in order.
\<close>

datatype call = FindOne kind | Create kind

definition call_kind :: "call \<Rightarrow> kind" where
  "call_kind c = (case c of FindOne k \<Rightarrow> k | Create k \<Rightarrow> k)"

record state =
  stats :: Stats
  db :: store
  calls :: "call list"

text \<open>The state in which \<^verbatim>\<open>processFile\<close> starts on database \<open>d\<close>: all counters 0
  (lines 80 to 87).\<close>

definition start :: "store \<Rightarrow> state" where
  "start d = \<lparr>stats = stats0, db = d, calls = []\<rparr>"

text \<open>
  Every \<^verbatim>\<open>await\<close> lets other writers of the database run. What they commit between a
  \<^verbatim>\<open>findOne\<close> of model \<open>k\<close> that found nothing and the \<^verbatim>\<open>create\<close> that follows is
  the parameter \<open>others k\<close>; a worker that is \<open>alone\<close> sees no such write.
\<close>

type_synonym others = "kind \<Rightarrow> store \<Rightarrow> store"

definition alone :: others where
  "alone k d = d"

text \<open>
  The step \<^verbatim>\<open>processFile\<close> repeats for each model:
  \<^verbatim>\<open>let x = await M.findOne(..); if (!x) { x = await M.create(..); stats.m++; }\<close>.
  An error thrown by \<^verbatim>\<open>create\<close> is not caught here.
\<close>

definition findOrCreate ::
  "kind \<Rightarrow> (store \<Rightarrow> 'f doc option) \<Rightarrow> (store \<Rightarrow> error + ('f doc \<times> store)) \<Rightarrow>
     (Stats \<Rightarrow> Stats) \<Rightarrow> others \<Rightarrow> state \<Rightarrow> (error + 'f doc) \<times> state" where
  "findOrCreate k findIt createIt incr others s =
     (case findIt (db s) of
        Some d \<Rightarrow> (Inr d, s\<lparr>calls := calls s @ [FindOne k]\<rparr>)
      | None \<Rightarrow>
          (case createIt (others k (db s)) of
             Inl e \<Rightarrow> (Inl e, s\<lparr>db := others k (db s), calls := calls s @ [FindOne k, Create k]\<rparr>)
           | Inr (d, db') \<Rightarrow>
               (Inr d, s\<lparr>stats := incr (stats s), db := db',
                         calls := calls s @ [FindOne k, Create k]\<rparr>)))"

text \<open>1. Process Agent (lines 96 to 104). \<open>agentObject\<close> is the object literal given
  to \<^verbatim>\<open>Agent.create\<close>; likewise for the other models below.\<close>

definition agentObject :: "row \<Rightarrow> Agent" where
  "agentObject row =
     \<lparr>Agent_name = row ''agent'', Agent_agency_id = string_or_null (row ''agency_id'')\<rparr>"

definition processAgent :: "others \<Rightarrow> row \<Rightarrow> state \<Rightarrow> (error + Agent doc) \<times> state" where
  "processAgent others row =
     findOrCreate KAgent
       (\<lambda>d. findOne (Agents d) (\<lambda>a. Agent_name a = row ''agent''))
       (\<lambda>d. Agent_create d (agentObject row))
       (\<lambda>st. st\<lparr>agents := Suc (agents st)\<rparr>)
       others"

text \<open>2. Process User (lines 106 to 126)\<close>

definition userObject :: "date_parser \<Rightarrow> row \<Rightarrow> User" where
  "userObject dp row =
     \<lparr>User_firstname = row ''firstname'',
      User_dob = date_or_null dp (row ''dob''),
      User_address = row ''address'',
      User_phone = row ''phone'',
      User_state = row ''state'',
      User_zip = row ''zip'',
      User_email = row ''email'',
      User_gender = row ''gender'',
      User_userType = row ''userType'',
      User_city = row ''city''\<rparr>"

definition processUser ::
  "date_parser \<Rightarrow> others \<Rightarrow> row \<Rightarrow> state \<Rightarrow> (error + User doc) \<times> state" where
  "processUser dp others row =
     findOrCreate KUser
       (\<lambda>d. findOne (Users d)
          (\<lambda>u. User_firstname u = row ''firstname'' \<and> User_email u = row ''email''))
       (\<lambda>d. User_create d (userObject dp row))
       (\<lambda>st. st\<lparr>users := Suc (users st)\<rparr>)
       others"

text \<open>3. Process Account (lines 128 to 141)\<close>

definition accountObject :: "row \<Rightarrow> User doc \<Rightarrow> Account" where
  "accountObject row user =
     \<lparr>Account_name = row ''account_name'',
      Account_type = row ''account_type'',
      Account_user_id = Some (fst user)\<rparr>"

definition processAccount ::
  "others \<Rightarrow> row \<Rightarrow> User doc \<Rightarrow> state \<Rightarrow> (error + Account doc) \<times> state" where
  "processAccount others row user =
     findOrCreate KAccount
       (\<lambda>d. findOne (Accounts d)
          (\<lambda>a. Account_name a = row ''account_name'' \<and> Account_user_id a = Some (fst user)))
       (\<lambda>d. Account_create d (accountObject row user))
       (\<lambda>st. st\<lparr>accounts := Suc (accounts st)\<rparr>)
       others"

text \<open>4. Process Category (LOB) (lines 143 to 150)\<close>

definition categoryObject :: "row \<Rightarrow> Category" where
  "categoryObject row = \<lparr>Category_name = row ''category_name''\<rparr>"

definition processCategory :: "others \<Rightarrow> row \<Rightarrow> state \<Rightarrow> (error + Category doc) \<times> state" where
  "processCategory others row =
     findOrCreate KCategory
       (\<lambda>d. findOne (Categories d) (\<lambda>c. Category_name c = row ''category_name''))
       (\<lambda>d. Category_create d (categoryObject row))
       (\<lambda>st. st\<lparr>categories := Suc (categories st)\<rparr>)
       others"

text \<open>5. Process Carrier (lines 152 to 159)\<close>

definition carrierObject :: "row \<Rightarrow> Carrier" where
  "carrierObject row = \<lparr>Carrier_name = row ''company_name''\<rparr>"

definition processCarrier :: "others \<Rightarrow> row \<Rightarrow> state \<Rightarrow> (error + Carrier doc) \<times> state" where
  "processCarrier others row =
     findOrCreate KCarrier
       (\<lambda>d. findOne (Carriers d) (\<lambda>c. Carrier_name c = row ''company_name''))
       (\<lambda>d. Carrier_create d (carrierObject row))
       (\<lambda>st. st\<lparr>carriers := Suc (carriers st)\<rparr>)
       others"

text \<open>6. Process Policy (lines 161 to 184)\<close>

definition policyObject ::
  "date_parser \<Rightarrow> row \<Rightarrow> User doc \<Rightarrow> Account doc \<Rightarrow> Category doc \<Rightarrow> Carrier doc \<Rightarrow>
     Agent doc \<Rightarrow> Policy" where
  "policyObject dp row user account category carrier agent =
     \<lparr>Policy_policy_number = row ''policy_number'',
      Policy_policy_start_date = date_or_null dp (row ''policy_start_date''),
      Policy_policy_end_date = date_or_null dp (row ''policy_end_date''),
      Policy_premium_amount = float_or_zero (row ''premium_amount''),
      Policy_policy_type = row ''policy_type'',
      Policy_policy_mode = int_or_null (row ''policy_mode''),
      Policy_producer = row ''producer'',
      Policy_csr = row ''csr'',
      Policy_primary = (row ''primary'' = Some ''true''),
      Policy_applicant_id = row ''Applicant ID'',
      Policy_hasActive = (row ''hasActive'' = Some ''true''),
      Policy_premium_amount_written = float_or_zero (row ''premium_amount_written''),
      Policy_user_id = Some (fst user),
      Policy_account_id = Some (fst account),
      Policy_category_id = Some (fst category),
      Policy_carrier_id = Some (fst carrier),
      Policy_agent_id = Some (fst agent)\<rparr>"

definition processPolicy ::
  "date_parser \<Rightarrow> others \<Rightarrow> row \<Rightarrow> User doc \<Rightarrow> Account doc \<Rightarrow> Category doc \<Rightarrow>
     Carrier doc \<Rightarrow> Agent doc \<Rightarrow> state \<Rightarrow> (error + Policy doc) \<times> state" where
  "processPolicy dp others row user account category carrier agent =
     findOrCreate KPolicy
       (\<lambda>d. findOne (Policies d) (\<lambda>p. Policy_policy_number p = row ''policy_number''))
       (\<lambda>d. Policy_create d (policyObject dp row user account category carrier agent))
       (\<lambda>st. st\<lparr>policies := Suc (policies st)\<rparr>)
       others"

text \<open>Sequencing inside the \<^verbatim>\<open>try\<close> block: a thrown error skips everything that
  follows.\<close>

definition andThen ::
  "(state \<Rightarrow> (error + 'a) \<times> state) \<Rightarrow> ('a \<Rightarrow> state \<Rightarrow> (error + 'b) \<times> state) \<Rightarrow>
     state \<Rightarrow> (error + 'b) \<times> state" where
  "andThen m f s = (case m s of (Inl e, s') \<Rightarrow> (Inl e, s') | (Inr x, s') \<Rightarrow> f x s')"

text \<open>The body of \<^verbatim>\<open>for (const row of results)\<close> (lines 95 to 185).\<close>

definition processRow :: "date_parser \<Rightarrow> others \<Rightarrow> row \<Rightarrow> state \<Rightarrow> (error + unit) \<times> state" where
  "processRow dp others row =
     andThen (processAgent others row) (\<lambda>agent.
     andThen (processUser dp others row) (\<lambda>user.
     andThen (processAccount others row user) (\<lambda>account.
     andThen (processCategory others row) (\<lambda>category.
     andThen (processCarrier others row) (\<lambda>carrier.
     andThen (processPolicy dp others row user account category carrier agent)
       (\<lambda>policy s. (Inr (), s)))))))"

text \<open>The loop: rows in order, stopping at the first error (writes already made
  stay).\<close>

fun processRows ::
  "date_parser \<Rightarrow> others \<Rightarrow> row list \<Rightarrow> state \<Rightarrow> (error + unit) \<times> state" where
  "processRows dp others [] s = (Inr (), s)"
| "processRows dp others (row # results) s =
     (case processRow dp others row s of
        (Inl e, s') \<Rightarrow> (Inl e, s')
      | (Inr _, s') \<Rightarrow> processRows dp others results s')"

section \<open>The stream, the promise and the parent\<close>

text \<open>
  \<^verbatim>\<open>fs.createReadStream(filePath).pipe(csv())\<close> and the handlers \<^verbatim>\<open>processFile\<close>
  puts on the stream \<^verbatim>\<open>pipe\<close> returns, the CSV parser's: \<^verbatim>\<open>data\<close>, \<^verbatim>\<open>end\<close> and
  \<^verbatim>\<open>error\<close>. An error of the file stream itself (\<open>SourceError\<close>) is not forwarded by
  \<^verbatim>\<open>pipe\<close> and has no handler: it is an uncaught exception, which ends the worker thread.
\<close>

datatype stream_event = Data row | End | StreamError error | SourceError error

text \<open>What \<^verbatim>\<open>parentPort.postMessage\<close> sends: the \<^verbatim>\<open>stats\<close> object, or
  \<^verbatim>\<open>{ error: err.message }\<close>.\<close>

datatype payload = StatsPayload Stats | ErrorPayload string

text \<open>What the parent's \<^verbatim>\<open>Worker\<close> object emits.\<close>

datatype worker_event = Message payload | WorkerError error | Exit int

text \<open>
  The worker thread: the rows buffered in \<^verbatim>\<open>results\<close>, the promise \<^verbatim>\<open>processFile\<close>
  returned (pending, or rejected with an error; \<^verbatim>\<open>resolve\<close> is never called), the loop
  state, what the parent has been sent, and whether the thread has ended.
\<close>

record worker =
  results :: "row list"
  rejected :: "error option"
  st :: state
  out :: "worker_event list"
  ended :: bool

text \<open>\<^verbatim>\<open>reject(error)\<close>. The first rejection settles the promise and runs the
  \<^verbatim>\<open>.catch\<close> handler at the bottom of \<^verbatim>\<open>worker.js\<close>, which posts the message.\<close>

definition reject :: "error \<Rightarrow> worker \<Rightarrow> worker" where
  "reject e w =
     (if rejected w = None
      then w\<lparr>rejected := Some e, out := out w @ [Message (ErrorPayload (message e))]\<rparr>
      else w)"

text \<open>
  The \<^verbatim>\<open>end\<close> handler: the loop inside \<^verbatim>\<open>try\<close>, then the stats message, then
  \<^verbatim>\<open>await mongoose.connection.close()\<close>, whose outcome is the parameter \<open>close\<close>
  (\<open>None\<close> when it succeeds; the thread then has nothing left to do and exits with
  code 0). Whatever is thrown inside \<^verbatim>\<open>try\<close> goes to \<^verbatim>\<open>reject\<close>.
\<close>

definition onEnd :: "date_parser \<Rightarrow> others \<Rightarrow> error option \<Rightarrow> worker \<Rightarrow> worker" where
  "onEnd dp others close w =
     (case processRows dp others (results w) (st w) of
        (Inl e, s') \<Rightarrow> reject e (w\<lparr>st := s'\<rparr>)
      | (Inr _, s') \<Rightarrow>
          (case close of
             None \<Rightarrow> w\<lparr>st := s', out := out w @ [Message (StatsPayload (stats s')), Exit 0],
                        ended := True\<rparr>
           | Some e \<Rightarrow> reject e (w\<lparr>st := s', out := out w @ [Message (StatsPayload (stats s'))]\<rparr>)))"

definition onEvent ::
  "date_parser \<Rightarrow> others \<Rightarrow> error option \<Rightarrow> worker \<Rightarrow> stream_event \<Rightarrow> worker" where
  "onEvent dp others close w ev =
     (if ended w then w
      else
        (case ev of
           Data row \<Rightarrow> w\<lparr>results := results w @ [row]\<rparr>
         | End \<Rightarrow> onEnd dp others close w
         | StreamError e \<Rightarrow> reject e w
         | SourceError e \<Rightarrow> w\<lparr>out := out w @ [WorkerError e, Exit 1], ended := True\<rparr>))"

text \<open>\<^verbatim>\<open>processFile()\<close> on a file whose stream emits \<open>events\<close>, against database
  \<open>d\<close>.\<close>

definition processFile ::
  "date_parser \<Rightarrow> others \<Rightarrow> error option \<Rightarrow> stream_event list \<Rightarrow> store \<Rightarrow> worker" where
  "processFile dp others close events d =
     foldl (onEvent dp others close)
       \<lparr>results = [], rejected = None, st = start d, out = [], ended = False\<rparr>
       events"

text \<open>\<^verbatim>\<open>index.js\<close>: the promise of \<^verbatim>\<open>processCSV\<close>, settled by the first of the worker's
  \<^verbatim>\<open>message\<close>, \<^verbatim>\<open>error\<close> and non-zero \<^verbatim>\<open>exit\<close> events.\<close>

datatype 'a promise = Pending | Resolved 'a | Rejected error

function showNat :: "nat \<Rightarrow> string" where
  "showNat n =
     (if n < 10 then [''0123456789'' ! n] else showNat (n div 10) @ [''0123456789'' ! (n mod 10)])"
  by pat_completeness auto
termination
  by (relation "measure id") auto

definition showInt :: "int \<Rightarrow> string" where
  "showInt i = (if i < 0 then CHR ''-'' # showNat (nat (- i)) else showNat (nat i))"

definition onWorkerEvent :: "payload promise \<Rightarrow> worker_event \<Rightarrow> payload promise" where
  "onWorkerEvent p ev =
     (if p \<noteq> Pending then p
      else
        (case ev of
           Message m \<Rightarrow> Resolved m
         | WorkerError e \<Rightarrow> Rejected e
         | Exit code \<Rightarrow>
             if code \<noteq> 0 then Rejected (Error (''Worker stopped with exit code '' @ showInt code))
             else Pending))"

definition processCSV :: "worker_event list \<Rightarrow> payload promise" where
  "processCSV evs = foldl onWorkerEvent Pending evs"

text \<open>
  The handler of \<^verbatim>\<open>POST /api/upload\<close>. \<open>file\<close> is \<^verbatim>\<open>req.file\<close> (\<open>None\<close> when nothing
  was uploaded), given by the events its stream will emit; \<open>unlink\<close> is the outcome of
  \<^verbatim>\<open>fs.unlinkSync\<close>. The answer is the response sent (\<open>None\<close> while the promise is
  pending) and the database afterwards.
\<close>

datatype body = ErrorBody string | ProcessedBody string payload

record response =
  status :: nat
  body :: body

definition upload ::
  "date_parser \<Rightarrow> others \<Rightarrow> error option \<Rightarrow> error option \<Rightarrow> stream_event list option \<Rightarrow>
     store \<Rightarrow> response option \<times> store" where
  "upload dp others close unlink file d =
     (case file of
        None \<Rightarrow> (Some \<lparr>status = 400, body = ErrorBody ''No file uploaded''\<rparr>, d)
      | Some events \<Rightarrow>
          (let w = processFile dp others close events d in
           ((case processCSV (out w) of
              Pending \<Rightarrow> None
            | Rejected e \<Rightarrow> Some \<lparr>status = 500, body = ErrorBody (message e)\<rparr>
            | Resolved result \<Rightarrow>
                (case unlink of
                   Some e \<Rightarrow> Some \<lparr>status = 500, body = ErrorBody (message e)\<rparr>
                 | None \<Rightarrow>
                     Some \<lparr>status = 200,
                           body = ProcessedBody ''File processed successfully'' result\<rparr>)),
            db (st w))))"

section \<open>Predicates the properties are stated with\<close>

text \<open>The database \<open>d'\<close> holds everything \<open>d\<close> holds, in the same order, and possibly
  more documents after it.\<close>

definition ext :: "store \<Rightarrow> store \<Rightarrow> bool" where
  "ext d d' \<longleftrightarrow>
     prefix (Agents d) (Agents d') \<and> prefix (Users d) (Users d')
     \<and> prefix (Accounts d) (Accounts d') \<and> prefix (Categories d) (Categories d')
     \<and> prefix (Carriers d) (Carriers d') \<and> prefix (Policies d) (Policies d')"

text \<open>From \<open>s\<close> to \<open>s'\<close> each counter has grown by the number of documents its
  collection has gained.\<close>

definition counted :: "state \<Rightarrow> state \<Rightarrow> bool" where
  "counted s s' \<longleftrightarrow>
     length (Agents (db s')) + agents (stats s) = length (Agents (db s)) + agents (stats s')
     \<and> length (Users (db s')) + users (stats s) = length (Users (db s)) + users (stats s')
     \<and> length (Accounts (db s')) + accounts (stats s)
         = length (Accounts (db s)) + accounts (stats s')
     \<and> length (Categories (db s')) + categories (stats s)
         = length (Categories (db s)) + categories (stats s')
     \<and> length (Carriers (db s')) + carriers (stats s)
         = length (Carriers (db s)) + carriers (stats s')
     \<and> length (Policies (db s')) + policies (stats s)
         = length (Policies (db s)) + policies (stats s')"

text \<open>Every lookup \<^verbatim>\<open>processFile\<close> makes for the row finds a document in \<open>d\<close>.\<close>

definition ingested :: "row \<Rightarrow> store \<Rightarrow> bool" where
  "ingested row d \<longleftrightarrow>
     findOne (Agents d) (\<lambda>a. Agent_name a = row ''agent'') \<noteq> None
     \<and> (case findOne (Users d)
               (\<lambda>u. User_firstname u = row ''firstname'' \<and> User_email u = row ''email'') of
          None \<Rightarrow> False
        | Some user \<Rightarrow>
            findOne (Accounts d)
              (\<lambda>a. Account_name a = row ''account_name'' \<and> Account_user_id a = Some (fst user))
              \<noteq> None)
     \<and> findOne (Categories d) (\<lambda>c. Category_name c = row ''category_name'') \<noteq> None
     \<and> findOne (Carriers d) (\<lambda>c. Carrier_name c = row ''company_name'') \<noteq> None
     \<and> findOne (Policies d) (\<lambda>p. Policy_policy_number p = row ''policy_number'') \<noteq> None"

definition isFindOne :: "call \<Rightarrow> bool" where
  "isFindOne c = (case c of FindOne k \<Rightarrow> True | Create k \<Rightarrow> False)"


text \<open>Within each collection no two documents have the same \<^verbatim>\<open>_id\<close>, and every
  \<^verbatim>\<open>_id\<close> in use is older than the next fresh one.\<close>

definition ids_ok :: "store \<Rightarrow> bool" where
  "ids_ok d \<longleftrightarrow>
     distinct (map fst (Agents d)) \<and> list_all (\<lambda>x. fst x < nextId d) (Agents d)
     \<and> distinct (map fst (Users d)) \<and> list_all (\<lambda>x. fst x < nextId d) (Users d)
     \<and> distinct (map fst (Accounts d)) \<and> list_all (\<lambda>x. fst x < nextId d) (Accounts d)
     \<and> distinct (map fst (Categories d)) \<and> list_all (\<lambda>x. fst x < nextId d) (Categories d)
     \<and> distinct (map fst (Carriers d)) \<and> list_all (\<lambda>x. fst x < nextId d) (Carriers d)
     \<and> distinct (map fst (Policies d)) \<and> list_all (\<lambda>x. fst x < nextId d) (Policies d)"

text \<open>The order in which \<^verbatim>\<open>processFile\<close> visits the models.\<close>

definition visitingOrder :: "kind list" where
  "visitingOrder = [KAgent, KUser, KAccount, KCategory, KCarrier, KPolicy]"

section \<open>Concrete inputs\<close>

text \<open>
  A host \<^verbatim>\<open>Date.parse\<close> that recognises the date-only form \<^verbatim>\<open>YYYY-MM-DD\<close> of the
  ECMAScript date-time string format (read as UTC midnight) and nothing else. It is
  used for the examples only; the theorems hold for every host parser.
\<close>

definition daysFromCivil :: "int \<Rightarrow> int \<Rightarrow> int \<Rightarrow> int" where
  "daysFromCivil y m d =
     (let y1 = (if m \<le> 2 then y - 1 else y);
          era = y1 div 400;
          yoe = y1 - era * 400;
          doy = (153 * (if m > 2 then m - 3 else m + 9) + 2) div 5 + d - 1;
          doe = yoe * 365 + yoe div 4 - yoe div 100 + doy
      in era * 146097 + doe - 719468)"

definition daysInMonth :: "int \<Rightarrow> int \<Rightarrow> int" where
  "daysInMonth y m =
     (if m = 2 then (if y mod 4 = 0 \<and> (y mod 100 \<noteq> 0 \<or> y mod 400 = 0) then 29 else 28)
      else if m \<in> {4, 6, 9, 11} then 30 else 31)"

definition isoDate :: date_parser where
  "isoDate text =
     (if length text = 10 \<and> text ! 4 = CHR ''-'' \<and> text ! 7 = CHR ''-''
         \<and> list_all (isDigit 10) (take 4 text @ take 2 (drop 5 text) @ drop 8 text)
      then
        (let y = int (digitsValue 10 (take 4 text));
             m = int (digitsValue 10 (take 2 (drop 5 text)));
             d = int (digitsValue 10 (drop 8 text))
         in if 1 \<le> m \<and> m \<le> 12 \<and> 1 \<le> d \<and> d \<le> daysInMonth y m
            then Some (daysFromCivil y m d * 86400000) else None)
      else None)"

definition store0 :: store where
  "store0 = \<lparr>Agents = [], Users = [], Accounts = [], Categories = [], Carriers = [],
             Policies = [], nextId = 0\<rparr>"

definition rowA :: row where
  "rowA = [''agent'' \<mapsto> ''Alex Watson'', ''agency_id'' \<mapsto> [],
           ''firstname'' \<mapsto> ''Lura Lucca'', ''dob'' \<mapsto> ''1960-11-02'',
           ''email'' \<mapsto> ''madler@yahoo.ca'',
           ''account_name'' \<mapsto> ''Lura Lucca & Owen Dodson'',
           ''category_name'' \<mapsto> ''Commercial Auto'', ''company_name'' \<mapsto> ''Integon Gen Ins Corp'',
           ''policy_number'' \<mapsto> ''YEEX9MOIBU7X'', ''policy_start_date'' \<mapsto> ''2018-11-02'',
           ''premium_amount'' \<mapsto> ''1180.83'', ''premium_amount_written'' \<mapsto> [],
           ''policy_mode'' \<mapsto> ''12'', ''primary'' \<mapsto> ''true'', ''hasActive'' \<mapsto> ''TRUE'']"

text \<open>A second row with the policy number of \<open>rowA\<close>, another agent and user, and no
  date columns.\<close>

definition rowB :: row where
  "rowB = [''agent'' \<mapsto> ''Ty Woodward'',
           ''firstname'' \<mapsto> ''Torie Buchanan'', ''email'' \<mapsto> ''torie@gmail.com'',
           ''account_name'' \<mapsto> ''Torie Buchanan'',
           ''category_name'' \<mapsto> ''Commercial Auto'', ''company_name'' \<mapsto> ''Integon Gen Ins Corp'',
           ''policy_number'' \<mapsto> ''YEEX9MOIBU7X'', ''premium_amount'' \<mapsto> ''12abc'',
           ''premium_amount_written'' \<mapsto> ''0'', ''policy_mode'' \<mapsto> ''0'',
           ''primary'' \<mapsto> ''TRUE'']"

text \<open>The states after \<open>rowA\<close>, and after \<open>rowB\<close>, each from the empty database.\<close>

definition stateA :: state where
  "stateA =
     \<lparr>stats = \<lparr>agents = 1, users = 1, accounts = 1, categories = 1, carriers = 1, policies = 1\<rparr>,
      db = \<lparr>Agents = [(0, \<lparr>Agent_name = Some ''Alex Watson'', Agent_agency_id = None\<rparr>)],
            Users = [(1, \<lparr>User_firstname = Some ''Lura Lucca'',
                           User_dob = Some (ValidDate (- 289180800000)),
                           User_address = None, User_phone = None, User_state = None,
                           User_zip = None, User_email = Some ''madler@yahoo.ca'',
                           User_gender = None, User_userType = None, User_city = None\<rparr>)],
            Accounts = [(2, \<lparr>Account_name = Some ''Lura Lucca & Owen Dodson'',
                              Account_type = None, Account_user_id = Some 1\<rparr>)],
            Categories = [(3, \<lparr>Category_name = Some ''Commercial Auto''\<rparr>)],
            Carriers = [(4, \<lparr>Carrier_name = Some ''Integon Gen Ins Corp''\<rparr>)],
            Policies = [(5, \<lparr>Policy_policy_number = Some ''YEEX9MOIBU7X'',
                              Policy_policy_start_date = Some (ValidDate 1541116800000),
                              Policy_policy_end_date = None,
                              Policy_premium_amount = Finite (118083 / 100),
                              Policy_policy_type = None,
                              Policy_policy_mode = Some (Finite 12),
                              Policy_producer = None, Policy_csr = None,
                              Policy_primary = True, Policy_applicant_id = None,
                              Policy_hasActive = False,
                              Policy_premium_amount_written = Finite 0,
                              Policy_user_id = Some 1, Policy_account_id = Some 2,
                              Policy_category_id = Some 3, Policy_carrier_id = Some 4,
                              Policy_agent_id = Some 0\<rparr>)],
            nextId = 6\<rparr>,
      calls = [FindOne KAgent, Create KAgent, FindOne KUser, Create KUser,
               FindOne KAccount, Create KAccount, FindOne KCategory, Create KCategory,
               FindOne KCarrier, Create KCarrier, FindOne KPolicy, Create KPolicy]\<rparr>"

definition stateB :: state where
  "stateB =
     \<lparr>stats = \<lparr>agents = 1, users = 1, accounts = 1, categories = 1, carriers = 1, policies = 1\<rparr>,
      db = \<lparr>Agents = [(0, \<lparr>Agent_name = Some ''Ty Woodward'', Agent_agency_id = None\<rparr>)],
            Users = [(1, \<lparr>User_firstname = Some ''Torie Buchanan'', User_dob = None,
                           User_address = None, User_phone = None, User_state = None,
                           User_zip = None, User_email = Some ''torie@gmail.com'',
                           User_gender = None, User_userType = None, User_city = None\<rparr>)],
            Accounts = [(2, \<lparr>Account_name = Some ''Torie Buchanan'',
                              Account_type = None, Account_user_id = Some 1\<rparr>)],
            Categories = [(3, \<lparr>Category_name = Some ''Commercial Auto''\<rparr>)],
            Carriers = [(4, \<lparr>Carrier_name = Some ''Integon Gen Ins Corp''\<rparr>)],
            Policies = [(5, \<lparr>Policy_policy_number = Some ''YEEX9MOIBU7X'',
                              Policy_policy_start_date = None,
                              Policy_policy_end_date = None,
                              Policy_premium_amount = Finite 12,
                              Policy_policy_type = None,
                              Policy_policy_mode = None,
                              Policy_producer = None, Policy_csr = None,
                              Policy_primary = False, Policy_applicant_id = None,
                              Policy_hasActive = False,
                              Policy_premium_amount_written = Finite 0,
                              Policy_user_id = Some 1, Policy_account_id = Some 2,
                              Policy_category_id = Some 3, Policy_carrier_id = Some 4,
                              Policy_agent_id = Some 0\<rparr>)],
            nextId = 6\<rparr>,
      calls = [FindOne KAgent, Create KAgent, FindOne KUser, Create KUser,
               FindOne KAccount, Create KAccount, FindOne KCategory, Create KCategory,
               FindOne KCarrier, Create KCarrier, FindOne KPolicy, Create KPolicy]\<rparr>"

text \<open>\<open>rowB\<close> with a \<^verbatim>\<open>dob\<close> that is not a date.\<close>

definition rowD :: row where
  "rowD = rowB(''dob'' \<mapsto> ''abc'')"

text \<open>The state after \<open>rowA\<close> and then \<open>rowB\<close>, from the empty database.\<close>

definition stateAB :: state where
  "stateAB =
     \<lparr>stats = \<lparr>agents = 2, users = 2, accounts = 2, categories = 1, carriers = 1, policies = 1\<rparr>,
      db = (db stateA)
        \<lparr>Agents := Agents (db stateA)
           @ [(6, \<lparr>Agent_name = Some ''Ty Woodward'', Agent_agency_id = None\<rparr>)],
         Users := Users (db stateA)
           @ [(7, \<lparr>User_firstname = Some ''Torie Buchanan'', User_dob = None,
                    User_address = None, User_phone = None, User_state = None,
                    User_zip = None, User_email = Some ''torie@gmail.com'',
                    User_gender = None, User_userType = None, User_city = None\<rparr>)],
         Accounts := Accounts (db stateA)
           @ [(8, \<lparr>Account_name = Some ''Torie Buchanan'', Account_type = None,
                    Account_user_id = Some 7\<rparr>)],
         nextId := 9\<rparr>,
      calls = calls stateA
        @ [FindOne KAgent, Create KAgent, FindOne KUser, Create KUser,
           FindOne KAccount, Create KAccount, FindOne KCategory, FindOne KCarrier,
           FindOne KPolicy]\<rparr>"



section \<open>Evaluating the model\<close>

lemmas js_defs =
  parseInt_def parseFloat_def ToString_def trimStart_def isWhiteSpace_def isDigit_def
  digitValue_def digitsValue_def Let_def exponentPart_def scale10_def truthy_string_def
  truthy_number_def newDate_def string_or_null_def date_or_null_def float_or_zero_def
  int_or_null_def

lemmas iso_defs = isoDate_def daysFromCivil_def daysInMonth_def

lemmas store_defs =
  findOne_def required_def castDate_def Agent_validate_def User_validate_def
  Account_validate_def Category_validate_def Carrier_validate_def Policy_validate_def
  insertDoc_def Agent_create_def User_create_def Account_create_def Category_create_def
  Carrier_create_def Policy_create_def

lemmas worker_defs =
  stats0_def alone_def findOrCreate_def processAgent_def processUser_def processAccount_def
  processCategory_def processCarrier_def processPolicy_def agentObject_def userObject_def
  accountObject_def categoryObject_def carrierObject_def policyObject_def andThen_def
  processRow_def store0_def start_def

lemma rowA_fields:
  "rowA ''agent'' = Some ''Alex Watson''" "rowA ''agency_id'' = Some []"
  "rowA ''firstname'' = Some ''Lura Lucca''" "rowA ''dob'' = Some ''1960-11-02''"
  "rowA ''address'' = None" "rowA ''phone'' = None" "rowA ''state'' = None"
  "rowA ''zip'' = None" "rowA ''email'' = Some ''madler@yahoo.ca''"
  "rowA ''gender'' = None" "rowA ''userType'' = None" "rowA ''city'' = None"
  "rowA ''account_name'' = Some ''Lura Lucca & Owen Dodson''" "rowA ''account_type'' = None"
  "rowA ''category_name'' = Some ''Commercial Auto''"
  "rowA ''company_name'' = Some ''Integon Gen Ins Corp''"
  "rowA ''policy_number'' = Some ''YEEX9MOIBU7X''"
  "rowA ''policy_start_date'' = Some ''2018-11-02''" "rowA ''policy_end_date'' = None"
  "rowA ''premium_amount'' = Some ''1180.83''" "rowA ''premium_amount_written'' = Some []"
  "rowA ''policy_type'' = None" "rowA ''policy_mode'' = Some ''12''"
  "rowA ''producer'' = None" "rowA ''csr'' = None" "rowA ''primary'' = Some ''true''"
  "rowA ''Applicant ID'' = None" "rowA ''hasActive'' = Some ''TRUE''"
  by (simp_all add: rowA_def)

lemma rowB_fields:
  "rowB ''agent'' = Some ''Ty Woodward''" "rowB ''agency_id'' = None"
  "rowB ''firstname'' = Some ''Torie Buchanan''" "rowB ''dob'' = None"
  "rowB ''address'' = None" "rowB ''phone'' = None" "rowB ''state'' = None"
  "rowB ''zip'' = None" "rowB ''email'' = Some ''torie@gmail.com''"
  "rowB ''gender'' = None" "rowB ''userType'' = None" "rowB ''city'' = None"
  "rowB ''account_name'' = Some ''Torie Buchanan''" "rowB ''account_type'' = None"
  "rowB ''category_name'' = Some ''Commercial Auto''"
  "rowB ''company_name'' = Some ''Integon Gen Ins Corp''"
  "rowB ''policy_number'' = Some ''YEEX9MOIBU7X''"
  "rowB ''policy_start_date'' = None" "rowB ''policy_end_date'' = None"
  "rowB ''premium_amount'' = Some ''12abc''" "rowB ''premium_amount_written'' = Some ''0''"
  "rowB ''policy_type'' = None" "rowB ''policy_mode'' = Some ''0''"
  "rowB ''producer'' = None" "rowB ''csr'' = None" "rowB ''primary'' = Some ''TRUE''"
  "rowB ''Applicant ID'' = None" "rowB ''hasActive'' = None"
  by (simp_all add: rowB_def)

lemma run_rowA: "processRow isoDate alone rowA (start store0) = (Inr (), stateA)"
  by (simp add: js_defs iso_defs store_defs worker_defs rowA_fields stateA_def)

lemma run_rowB: "processRow isoDate alone rowB (start store0) = (Inr (), stateB)"
  by (simp add: js_defs iso_defs store_defs worker_defs rowB_fields stateB_def)

lemma run_rowD:
  "processRow isoDate alone rowD (start store0) =
     (Inl (ValidationError KUser [CastToDateFailed ''dob'']),
      \<lparr>stats = stats0\<lparr>agents := 1\<rparr>,
       db = store0\<lparr>Agents := [(0, \<lparr>Agent_name = Some ''Ty Woodward'', Agent_agency_id = None\<rparr>)],
                  nextId := 1\<rparr>,
       calls = [FindOne KAgent, Create KAgent, FindOne KUser, Create KUser]\<rparr>)"
  by (simp add: js_defs iso_defs store_defs worker_defs rowB_fields rowD_def)

section \<open>The structure of one row's processing\<close>

lemma andThen_Inr:
  assumes "andThen m f s = (Inr y, s')"
  obtains x t where "m s = (Inr x, t)" and "f x t = (Inr y, s')"
  using assms by (auto simp: andThen_def split: prod.splits sum.splits)

lemma andThen_Inl:
  assumes "andThen m f s = (Inl e, s')"
  shows "m s = (Inl e, s') \<or> (\<exists>x t. m s = (Inr x, t) \<and> f x t = (Inl e, s'))"
  using assms by (auto simp: andThen_def split: prod.splits sum.splits)

lemma processRow_Inr:
  assumes "processRow dp others row s = (Inr u, s')"
  obtains agent s1 user s2 account s3 category s4 carrier s5 policy where
    "processAgent others row s = (Inr agent, s1)"
    "processUser dp others row s1 = (Inr user, s2)"
    "processAccount others row user s2 = (Inr account, s3)"
    "processCategory others row s3 = (Inr category, s4)"
    "processCarrier others row s4 = (Inr carrier, s5)"
    "processPolicy dp others row user account category carrier agent s5 = (Inr policy, s')"
proof -
  from assms obtain agent s1 where 1: "processAgent others row s = (Inr agent, s1)"
    and r1: "andThen (processUser dp others row) (\<lambda>user.
     andThen (processAccount others row user) (\<lambda>account.
     andThen (processCategory others row) (\<lambda>category.
     andThen (processCarrier others row) (\<lambda>carrier.
     andThen (processPolicy dp others row user account category carrier agent)
       (\<lambda>policy s. (Inr (), s)))))) s1 = (Inr u, s')"
    unfolding processRow_def by (rule andThen_Inr)
  from r1 obtain user s2 where 2: "processUser dp others row s1 = (Inr user, s2)"
    and r2: "andThen (processAccount others row user) (\<lambda>account.
     andThen (processCategory others row) (\<lambda>category.
     andThen (processCarrier others row) (\<lambda>carrier.
     andThen (processPolicy dp others row user account category carrier agent)
       (\<lambda>policy s. (Inr (), s))))) s2 = (Inr u, s')"
    by (rule andThen_Inr)
  from r2 obtain account s3 where 3: "processAccount others row user s2 = (Inr account, s3)"
    and r3: "andThen (processCategory others row) (\<lambda>category.
     andThen (processCarrier others row) (\<lambda>carrier.
     andThen (processPolicy dp others row user account category carrier agent)
       (\<lambda>policy s. (Inr (), s)))) s3 = (Inr u, s')"
    by (rule andThen_Inr)
  from r3 obtain category s4 where 4: "processCategory others row s3 = (Inr category, s4)"
    and r4: "andThen (processCarrier others row) (\<lambda>carrier.
     andThen (processPolicy dp others row user account category carrier agent)
       (\<lambda>policy s. (Inr (), s))) s4 = (Inr u, s')"
    by (rule andThen_Inr)
  from r4 obtain carrier s5 where 5: "processCarrier others row s4 = (Inr carrier, s5)"
    and r5: "andThen (processPolicy dp others row user account category carrier agent)
       (\<lambda>policy s. (Inr (), s)) s5 = (Inr u, s')"
    by (rule andThen_Inr)
  from r5 obtain policy t where
    6: "processPolicy dp others row user account category carrier agent s5 = (Inr policy, t)"
    and "(Inr (), t) = (Inr u, s')"
    by (auto elim!: andThen_Inr)
  then have "t = s'" by simp
  with 1 2 3 4 5 6 show thesis using that by blast
qed

lemma findOrCreate_cases:
  assumes "findOrCreate k findIt createIt incr others s = (r, s')"
  obtains (found) d where "findIt (db s) = Some d" "r = Inr d"
      "s' = s\<lparr>calls := calls s @ [FindOne k]\<rparr>"
  | (failed) e where "findIt (db s) = None" "createIt (others k (db s)) = Inl e" "r = Inl e"
      "s' = s\<lparr>db := others k (db s), calls := calls s @ [FindOne k, Create k]\<rparr>"
  | (created) d db' where "findIt (db s) = None" "createIt (others k (db s)) = Inr (d, db')"
      "r = Inr d"
      "s' = s\<lparr>stats := incr (stats s), db := db', calls := calls s @ [FindOne k, Create k]\<rparr>"
  using assms by (auto simp: findOrCreate_def split: option.splits sum.splits prod.splits)

lemma Policy_create_Inr:
  assumes "Policy_create d obj = Inr (x, d')"
  shows "x = (nextId d, obj)"
    and "d' = d\<lparr>Policies := Policies d @ [x], nextId := Suc (nextId d)\<rparr>"
    and "Policy_validate obj = []"
    and "\<forall>p \<in> set (Policies d). Policy_policy_number (snd p) \<noteq> Policy_policy_number obj"
  using assms by (auto simp: Policy_create_def insertDoc_def split: if_splits sum.splits)

lemma created_policy:
  assumes "processRow dp others row s = (Inr u, s')" and "last (calls s') = Create KPolicy"
  obtains i user account category carrier agent where
    "Policies (db s') \<noteq> []"
    "last (Policies (db s')) = (i, policyObject dp row user account category carrier agent)"
    "Policy_validate (policyObject dp row user account category carrier agent) = []"
proof -
  from assms(1) obtain agent user account category carrier s5 policy where
    6: "processPolicy dp others row user account category carrier agent s5 = (Inr policy, s')"
    by (rule processRow_Inr)
  from 6 [unfolded processPolicy_def] show thesis
  proof (cases rule: findOrCreate_cases)
    case (found d)
    with assms(2) show ?thesis by simp
  next
    case (failed e)
    then show ?thesis by simp
  next
    case (created d db')
    from Policy_create_Inr(1,2) [OF created(2)] created(4)
    have "Policies (db s') \<noteq> []"
      and "last (Policies (db s')) =
        (nextId (others KPolicy (db s5)), policyObject dp row user account category carrier agent)"
      by simp_all
    then show ?thesis using Policy_create_Inr(3) [OF created(2)] by (rule that)
  qed
qed

lemma lastA: "last (calls stateA) = Create KPolicy"
  by (simp add: stateA_def)

lemma lastB: "last (calls stateB) = Create KPolicy"
  by (simp add: stateB_def)

section \<open>The values stored in a created Policy\<close>

text \<open>
  C7. Whenever a row creates its Policy, the stored \<^verbatim>\<open>primary\<close> flag is true if and
  only if the row's \<^verbatim>\<open>primary\<close> text is exactly \<^verbatim>\<open>true\<close>, and the stored
  \<^verbatim>\<open>hasActive\<close> flag is true if and only if the row's \<^verbatim>\<open>hasActive\<close> text is exactly
  \<^verbatim>\<open>true\<close>; every other text, and a missing field, gives false.
\<close>

theorem flags_true_iff_literal_true:
  assumes "processRow dp others row s = (Inr u, s')" and "last (calls s') = Create KPolicy"
  shows "Policy_primary (snd (last (Policies (db s')))) = (row ''primary'' = Some ''true'')
       \<and> Policy_hasActive (snd (last (Policies (db s')))) = (row ''hasActive'' = Some ''true'')"
proof -
  from assms obtain i user account category carrier agent where
    "last (Policies (db s')) = (i, policyObject dp row user account category carrier agent)"
    by (rule created_policy)
  then show ?thesis by (simp add: policyObject_def)
qed

text \<open>\<open>rowA\<close> has \<^verbatim>\<open>primary\<close> = \<^verbatim>\<open>true\<close> and \<^verbatim>\<open>hasActive\<close> = \<^verbatim>\<open>TRUE\<close>: the first is
  stored as true, the second as false.\<close>

theorem flags_true_iff_literal_true_witness:
  "processRow isoDate alone rowA (start store0) = (Inr (), stateA)
   \<and> last (calls stateA) = Create KPolicy
   \<and> rowA ''primary'' = Some ''true''
   \<and> Policy_primary (snd (last (Policies (db stateA))))
   \<and> rowA ''hasActive'' = Some ''TRUE''
   \<and> \<not> Policy_hasActive (snd (last (Policies (db stateA))))"
  using flags_true_iff_literal_true [OF run_rowA lastA] run_rowA lastA
  by (simp add: rowA_fields)

lemma parseFloat_undefined: "parseFloat None = NaN"
  by (simp add: js_defs)

lemma parseFloat_empty: "parseFloat (Some []) = NaN"
  by (simp add: js_defs)

lemma float_or_zero_eq:
  "float_or_zero v = (if parseFloat v = NaN then Finite 0 else parseFloat v)"
  by (cases "parseFloat v") (auto simp: float_or_zero_def truthy_number_def)

text \<open>
  C6, as the code has it. Whenever a row creates its Policy, \<^verbatim>\<open>premium_amount\<close> and
  \<^verbatim>\<open>premium_amount_written\<close> are stored as the number \<^verbatim>\<open>parseFloat\<close> reads from the
  start of the source text, and as 0 when \<^verbatim>\<open>parseFloat\<close> reads no number; it reads
  none from a missing field and from the empty text.
\<close>

theorem premium_amounts_parseFloat_or_zero:
  assumes "processRow dp others row s = (Inr u, s')" and "last (calls s') = Create KPolicy"
  shows "Policy_premium_amount (snd (last (Policies (db s')))) =
           (if parseFloat (row ''premium_amount'') = NaN then Finite 0
            else parseFloat (row ''premium_amount''))
       \<and> Policy_premium_amount_written (snd (last (Policies (db s')))) =
           (if parseFloat (row ''premium_amount_written'') = NaN then Finite 0
            else parseFloat (row ''premium_amount_written''))
       \<and> parseFloat None = NaN \<and> parseFloat (Some []) = NaN"
proof -
  from assms obtain i user account category carrier agent where
    "last (Policies (db s')) = (i, policyObject dp row user account category carrier agent)"
    by (rule created_policy)
  then show ?thesis
    by (simp add: policyObject_def float_or_zero_eq parseFloat_undefined parseFloat_empty)
qed

text \<open>\<open>rowA\<close>: \<^verbatim>\<open>premium_amount\<close> = \<^verbatim>\<open>1180.83\<close> is stored as that number, and the empty
  \<^verbatim>\<open>premium_amount_written\<close> as 0.\<close>

theorem premium_amounts_parseFloat_or_zero_witness:
  "processRow isoDate alone rowA (start store0) = (Inr (), stateA)
   \<and> last (calls stateA) = Create KPolicy
   \<and> rowA ''premium_amount'' = Some ''1180.83''
   \<and> Policy_premium_amount (snd (last (Policies (db stateA)))) = Finite (118083 / 100)
   \<and> rowA ''premium_amount_written'' = Some []
   \<and> Policy_premium_amount_written (snd (last (Policies (db stateA)))) = Finite 0"
proof -
  have "parseFloat (Some ''1180.83'') = Finite (118083 / 100)"
    by (simp add: js_defs)
  with premium_amounts_parseFloat_or_zero [OF run_rowA lastA] run_rowA lastA
  show ?thesis by (simp add: rowA_fields parseFloat_empty)
qed

text \<open>
  Against C6 as stated: \<open>rowB\<close> creates a Policy; its \<^verbatim>\<open>premium_amount\<close> is the text
  \<^verbatim>\<open>12abc\<close>, which is not a number, and 12 is stored, not 0; its
  \<^verbatim>\<open>premium_amount_written\<close> is the text \<^verbatim>\<open>0\<close>, present and numeric, and 0 is stored.
\<close>

theorem premium_amounts_counterexample:
  "processRow isoDate alone rowB (start store0) = (Inr (), stateB)
   \<and> last (calls stateB) = Create KPolicy
   \<and> rowB ''premium_amount'' = Some ''12abc''
   \<and> Policy_premium_amount (snd (last (Policies (db stateB)))) = Finite 12
   \<and> rowB ''premium_amount_written'' = Some ''0''
   \<and> parseFloat (Some ''0'') = Finite 0
   \<and> Policy_premium_amount_written (snd (last (Policies (db stateB)))) = Finite 0"
proof -
  have "parseFloat (Some ''0'') = Finite 0"
    by (simp add: js_defs)
  moreover have "Policy_premium_amount (snd (last (Policies (db stateB)))) = Finite 12"
    and "Policy_premium_amount_written (snd (last (Policies (db stateB)))) = Finite 0"
    by (simp_all add: stateB_def)
  ultimately show ?thesis using run_rowB lastB by (simp add: rowB_fields)
qed








section \<open>One step, with no concurrent writer\<close>

lemma findOne_append:
  "findOne coll P = Some d \<Longrightarrow> findOne (coll @ zs) P = Some d"
  by (induction coll) (auto simp: findOne_def)

lemma findOne_Some:
  "findOne coll P = Some d \<Longrightarrow> d \<in> set coll \<and> P (snd d)"
  unfolding findOne_def by (induction coll) (auto split: if_splits)


lemma findOne_snoc:
  "findOne coll P = None \<Longrightarrow> P (snd d) \<Longrightarrow> findOne (coll @ [d]) P = Some d"
  unfolding findOne_def by (induction coll) (auto split: if_splits)

lemma findOne_prefix:
  "prefix coll coll' \<Longrightarrow> findOne coll P = Some d \<Longrightarrow> findOne coll' P = Some d"
  by (auto simp: prefix_def findOne_append)

lemma Agent_create_Inr:
  assumes "Agent_create d obj = Inr (x, d')"
  shows "x = (nextId d, obj)"
    and "d' = d\<lparr>Agents := Agents d @ [x], nextId := Suc (nextId d)\<rparr>"
    and "Agent_validate obj = []"
  using assms by (auto simp: Agent_create_def insertDoc_def split: if_splits sum.splits)

lemma processAgent_alone:
  assumes "processAgent alone row s = (r, s')"
  obtains (found) x where
      "findOne (Agents (db s)) (\<lambda>a. Agent_name a = row ''agent'') = Some x"
      "r = Inr x" "db s' = db s" "stats s' = stats s" "calls s' = calls s @ [FindOne KAgent]"
  | (failed) e where
      "findOne (Agents (db s)) (\<lambda>a. Agent_name a = row ''agent'') = None"
      "Agent_create (db s) (agentObject row) = Inl e"
      "r = Inl e" "db s' = db s" "stats s' = stats s"
      "calls s' = calls s @ [FindOne KAgent, Create KAgent]"
  | (created)
      "findOne (Agents (db s)) (\<lambda>a. Agent_name a = row ''agent'') = None"
      "Agent_validate (agentObject row) = []"
      "r = Inr (nextId (db s), agentObject row)"
      "db s' = (db s)\<lparr>Agents := Agents (db s) @ [(nextId (db s), agentObject row)],
                        nextId := Suc (nextId (db s))\<rparr>"
      "stats s' = (stats s)\<lparr>agents := Suc (agents (stats s))\<rparr>"
      "calls s' = calls s @ [FindOne KAgent, Create KAgent]"
  using assms [unfolded processAgent_def]
proof (cases rule: findOrCreate_cases)
  case (found d)
  then show ?thesis by (intro that(1) [of d]) simp_all
next
  case (failed e)
  then show ?thesis by (intro that(2) [of e]) (simp_all add: alone_def)
next
  case (created d db')
  from Agent_create_Inr [OF created(2)] created show ?thesis
    by (intro that(3)) (simp_all add: alone_def)
qed

lemma User_create_Inr:
  assumes "User_create d obj = Inr (x, d')"
  shows "x = (nextId d, obj)"
    and "d' = d\<lparr>Users := Users d @ [x], nextId := Suc (nextId d)\<rparr>"
    and "User_validate obj = []"
  using assms by (auto simp: User_create_def insertDoc_def split: if_splits sum.splits)

lemma processUser_alone:
  assumes "processUser dp alone row s = (r, s')"
  obtains (found) x where
      "findOne (Users (db s)) (\<lambda>u. User_firstname u = row ''firstname'' \<and> User_email u = row ''email'') = Some x"
      "r = Inr x" "db s' = db s" "stats s' = stats s" "calls s' = calls s @ [FindOne KUser]"
  | (failed) e where
      "findOne (Users (db s)) (\<lambda>u. User_firstname u = row ''firstname'' \<and> User_email u = row ''email'') = None"
      "User_create (db s) (userObject dp row) = Inl e"
      "r = Inl e" "db s' = db s" "stats s' = stats s"
      "calls s' = calls s @ [FindOne KUser, Create KUser]"
  | (created)
      "findOne (Users (db s)) (\<lambda>u. User_firstname u = row ''firstname'' \<and> User_email u = row ''email'') = None"
      "User_validate (userObject dp row) = []"
      "r = Inr (nextId (db s), userObject dp row)"
      "db s' = (db s)\<lparr>Users := Users (db s) @ [(nextId (db s), userObject dp row)],
                        nextId := Suc (nextId (db s))\<rparr>"
      "stats s' = (stats s)\<lparr>users := Suc (users (stats s))\<rparr>"
      "calls s' = calls s @ [FindOne KUser, Create KUser]"
  using assms [unfolded processUser_def]
proof (cases rule: findOrCreate_cases)
  case (found d)
  then show ?thesis by (intro that(1) [of d]) simp_all
next
  case (failed e)
  then show ?thesis by (intro that(2) [of e]) (simp_all add: alone_def)
next
  case (created d db')
  from User_create_Inr [OF created(2)] created show ?thesis
    by (intro that(3)) (simp_all add: alone_def)
qed

lemma Account_create_Inr:
  assumes "Account_create d obj = Inr (x, d')"
  shows "x = (nextId d, obj)"
    and "d' = d\<lparr>Accounts := Accounts d @ [x], nextId := Suc (nextId d)\<rparr>"
    and "Account_validate obj = []"
  using assms by (auto simp: Account_create_def insertDoc_def split: if_splits sum.splits)

lemma processAccount_alone:
  assumes "processAccount alone row user s = (r, s')"
  obtains (found) x where
      "findOne (Accounts (db s)) (\<lambda>a. Account_name a = row ''account_name'' \<and> Account_user_id a = Some (fst user)) = Some x"
      "r = Inr x" "db s' = db s" "stats s' = stats s" "calls s' = calls s @ [FindOne KAccount]"
  | (failed) e where
      "findOne (Accounts (db s)) (\<lambda>a. Account_name a = row ''account_name'' \<and> Account_user_id a = Some (fst user)) = None"
      "Account_create (db s) (accountObject row user) = Inl e"
      "r = Inl e" "db s' = db s" "stats s' = stats s"
      "calls s' = calls s @ [FindOne KAccount, Create KAccount]"
  | (created)
      "findOne (Accounts (db s)) (\<lambda>a. Account_name a = row ''account_name'' \<and> Account_user_id a = Some (fst user)) = None"
      "Account_validate (accountObject row user) = []"
      "r = Inr (nextId (db s), accountObject row user)"
      "db s' = (db s)\<lparr>Accounts := Accounts (db s) @ [(nextId (db s), accountObject row user)],
                        nextId := Suc (nextId (db s))\<rparr>"
      "stats s' = (stats s)\<lparr>accounts := Suc (accounts (stats s))\<rparr>"
      "calls s' = calls s @ [FindOne KAccount, Create KAccount]"
  using assms [unfolded processAccount_def]
proof (cases rule: findOrCreate_cases)
  case (found d)
  then show ?thesis by (intro that(1) [of d]) simp_all
next
  case (failed e)
  then show ?thesis by (intro that(2) [of e]) (simp_all add: alone_def)
next
  case (created d db')
  from Account_create_Inr [OF created(2)] created show ?thesis
    by (intro that(3)) (simp_all add: alone_def)
qed

lemma Category_create_Inr:
  assumes "Category_create d obj = Inr (x, d')"
  shows "x = (nextId d, obj)"
    and "d' = d\<lparr>Categories := Categories d @ [x], nextId := Suc (nextId d)\<rparr>"
    and "Category_validate obj = []"
  using assms by (auto simp: Category_create_def insertDoc_def split: if_splits sum.splits)

lemma processCategory_alone:
  assumes "processCategory alone row s = (r, s')"
  obtains (found) x where
      "findOne (Categories (db s)) (\<lambda>c. Category_name c = row ''category_name'') = Some x"
      "r = Inr x" "db s' = db s" "stats s' = stats s" "calls s' = calls s @ [FindOne KCategory]"
  | (failed) e where
      "findOne (Categories (db s)) (\<lambda>c. Category_name c = row ''category_name'') = None"
      "Category_create (db s) (categoryObject row) = Inl e"
      "r = Inl e" "db s' = db s" "stats s' = stats s"
      "calls s' = calls s @ [FindOne KCategory, Create KCategory]"
  | (created)
      "findOne (Categories (db s)) (\<lambda>c. Category_name c = row ''category_name'') = None"
      "Category_validate (categoryObject row) = []"
      "r = Inr (nextId (db s), categoryObject row)"
      "db s' = (db s)\<lparr>Categories := Categories (db s) @ [(nextId (db s), categoryObject row)],
                        nextId := Suc (nextId (db s))\<rparr>"
      "stats s' = (stats s)\<lparr>categories := Suc (categories (stats s))\<rparr>"
      "calls s' = calls s @ [FindOne KCategory, Create KCategory]"
  using assms [unfolded processCategory_def]
proof (cases rule: findOrCreate_cases)
  case (found d)
  then show ?thesis by (intro that(1) [of d]) simp_all
next
  case (failed e)
  then show ?thesis by (intro that(2) [of e]) (simp_all add: alone_def)
next
  case (created d db')
  from Category_create_Inr [OF created(2)] created show ?thesis
    by (intro that(3)) (simp_all add: alone_def)
qed

lemma Carrier_create_Inr:
  assumes "Carrier_create d obj = Inr (x, d')"
  shows "x = (nextId d, obj)"
    and "d' = d\<lparr>Carriers := Carriers d @ [x], nextId := Suc (nextId d)\<rparr>"
    and "Carrier_validate obj = []"
  using assms by (auto simp: Carrier_create_def insertDoc_def split: if_splits sum.splits)

lemma processCarrier_alone:
  assumes "processCarrier alone row s = (r, s')"
  obtains (found) x where
      "findOne (Carriers (db s)) (\<lambda>c. Carrier_name c = row ''company_name'') = Some x"
      "r = Inr x" "db s' = db s" "stats s' = stats s" "calls s' = calls s @ [FindOne KCarrier]"
  | (failed) e where
      "findOne (Carriers (db s)) (\<lambda>c. Carrier_name c = row ''company_name'') = None"
      "Carrier_create (db s) (carrierObject row) = Inl e"
      "r = Inl e" "db s' = db s" "stats s' = stats s"
      "calls s' = calls s @ [FindOne KCarrier, Create KCarrier]"
  | (created)
      "findOne (Carriers (db s)) (\<lambda>c. Carrier_name c = row ''company_name'') = None"
      "Carrier_validate (carrierObject row) = []"
      "r = Inr (nextId (db s), carrierObject row)"
      "db s' = (db s)\<lparr>Carriers := Carriers (db s) @ [(nextId (db s), carrierObject row)],
                        nextId := Suc (nextId (db s))\<rparr>"
      "stats s' = (stats s)\<lparr>carriers := Suc (carriers (stats s))\<rparr>"
      "calls s' = calls s @ [FindOne KCarrier, Create KCarrier]"
  using assms [unfolded processCarrier_def]
proof (cases rule: findOrCreate_cases)
  case (found d)
  then show ?thesis by (intro that(1) [of d]) simp_all
next
  case (failed e)
  then show ?thesis by (intro that(2) [of e]) (simp_all add: alone_def)
next
  case (created d db')
  from Carrier_create_Inr [OF created(2)] created show ?thesis
    by (intro that(3)) (simp_all add: alone_def)
qed

lemma processPolicy_alone:
  assumes "processPolicy dp alone row user account category carrier agent s = (r, s')"
  obtains (found) x where
      "findOne (Policies (db s)) (\<lambda>p. Policy_policy_number p = row ''policy_number'') = Some x"
      "r = Inr x" "db s' = db s" "stats s' = stats s" "calls s' = calls s @ [FindOne KPolicy]"
  | (failed) e where
      "findOne (Policies (db s)) (\<lambda>p. Policy_policy_number p = row ''policy_number'') = None"
      "Policy_create (db s) (policyObject dp row user account category carrier agent) = Inl e"
      "r = Inl e" "db s' = db s" "stats s' = stats s"
      "calls s' = calls s @ [FindOne KPolicy, Create KPolicy]"
  | (created)
      "findOne (Policies (db s)) (\<lambda>p. Policy_policy_number p = row ''policy_number'') = None"
      "Policy_validate (policyObject dp row user account category carrier agent) = []"
      "r = Inr (nextId (db s), policyObject dp row user account category carrier agent)"
      "db s' = (db s)\<lparr>Policies := Policies (db s) @ [(nextId (db s), policyObject dp row user account category carrier agent)],
                        nextId := Suc (nextId (db s))\<rparr>"
      "stats s' = (stats s)\<lparr>policies := Suc (policies (stats s))\<rparr>"
      "calls s' = calls s @ [FindOne KPolicy, Create KPolicy]"
  using assms [unfolded processPolicy_def]
proof (cases rule: findOrCreate_cases)
  case (found d)
  then show ?thesis by (intro that(1) [of d]) simp_all
next
  case (failed e)
  then show ?thesis by (intro that(2) [of e]) (simp_all add: alone_def)
next
  case (created d db')
  from Policy_create_Inr [OF created(2)] created show ?thesis
    by (intro that(3)) (simp_all add: alone_def)
qed

section \<open>One row, and the loop\<close>

lemma andThen_cases:
  assumes "andThen m f s = (r, s')"
  obtains (stop) e where "m s = (Inl e, s')" "r = Inl e"
  | (go) x t where "m s = (Inr x, t)" "f x t = (r, s')"
  using assms by (auto simp: andThen_def split: prod.splits sum.splits)

lemma processRow_cases:
  assumes "processRow dp others row s = (r, s')"
  obtains
    (agent_failed) e where "r = Inl e" "processAgent others row s = (Inl e, s')"
  | (user_failed) e agent s1 where "r = Inl e"
      "processAgent others row s = (Inr agent, s1)"
      "processUser dp others row s1 = (Inl e, s')"
  | (account_failed) e agent s1 user s2 where "r = Inl e"
      "processAgent others row s = (Inr agent, s1)"
      "processUser dp others row s1 = (Inr user, s2)"
      "processAccount others row user s2 = (Inl e, s')"
  | (category_failed) e agent s1 user s2 account s3 where "r = Inl e"
      "processAgent others row s = (Inr agent, s1)"
      "processUser dp others row s1 = (Inr user, s2)"
      "processAccount others row user s2 = (Inr account, s3)"
      "processCategory others row s3 = (Inl e, s')"
  | (carrier_failed) e agent s1 user s2 account s3 category s4 where "r = Inl e"
      "processAgent others row s = (Inr agent, s1)"
      "processUser dp others row s1 = (Inr user, s2)"
      "processAccount others row user s2 = (Inr account, s3)"
      "processCategory others row s3 = (Inr category, s4)"
      "processCarrier others row s4 = (Inl e, s')"
  | (policy_failed) e agent s1 user s2 account s3 category s4 carrier s5 where "r = Inl e"
      "processAgent others row s = (Inr agent, s1)"
      "processUser dp others row s1 = (Inr user, s2)"
      "processAccount others row user s2 = (Inr account, s3)"
      "processCategory others row s3 = (Inr category, s4)"
      "processCarrier others row s4 = (Inr carrier, s5)"
      "processPolicy dp others row user account category carrier agent s5 = (Inl e, s')"
  | (completed) agent s1 user s2 account s3 category s4 carrier s5 policy where "r = Inr ()"
      "processAgent others row s = (Inr agent, s1)"
      "processUser dp others row s1 = (Inr user, s2)"
      "processAccount others row user s2 = (Inr account, s3)"
      "processCategory others row s3 = (Inr category, s4)"
      "processCarrier others row s4 = (Inr carrier, s5)"
      "processPolicy dp others row user account category carrier agent s5 = (Inr policy, s')"
  using assms [unfolded processRow_def]
proof (cases rule: andThen_cases)
  case (stop e)
  then show ?thesis by (intro agent_failed)
next
  case 1: (go agent s1)
  from 1(2) show ?thesis
  proof (cases rule: andThen_cases)
    case (stop e)
    with 1 show ?thesis by (intro user_failed)
  next
    case 2: (go user s2)
    from 2(2) show ?thesis
    proof (cases rule: andThen_cases)
      case (stop e)
      with 1 2 show ?thesis by (intro account_failed)
    next
      case 3: (go account s3)
      from 3(2) show ?thesis
      proof (cases rule: andThen_cases)
        case (stop e)
        with 1 2 3 show ?thesis by (intro category_failed)
      next
        case 4: (go category s4)
        from 4(2) show ?thesis
        proof (cases rule: andThen_cases)
          case (stop e)
          with 1 2 3 4 show ?thesis by (intro carrier_failed)
        next
          case 5: (go carrier s5)
          from 5(2) show ?thesis
          proof (cases rule: andThen_cases)
            case (stop e)
            with 1 2 3 4 5 show ?thesis by (intro policy_failed)
          next
            case 6: (go policy s6)
            from 6(2) have "r = Inr ()" and "s6 = s'" by simp_all
            with 1 2 3 4 5 6 show ?thesis by (intro completed) simp_all
          qed
        qed
      qed
    qed
  qed
qed

lemma ext_refl: "ext d d"
  by (simp add: ext_def)

lemma ext_trans: "ext d d' \<Longrightarrow> ext d' d'' \<Longrightarrow> ext d d''"
  unfolding ext_def by (meson prefix_order.trans)

lemma counted_refl: "counted s s"
  by (simp add: counted_def)

lemma counted_trans: "counted s s' \<Longrightarrow> counted s' s'' \<Longrightarrow> counted s s''"
  unfolding counted_def by linarith

lemma processAgent_grows:
  assumes "processAgent alone row s = (r, s')"
  shows "ext (db s) (db s') \<and> counted s s'"
  using assms
proof (cases rule: processAgent_alone)
  case (found x)
  then show ?thesis by (simp add: ext_def counted_def)
next
  case (failed e)
  then show ?thesis by (simp add: ext_def counted_def)
next
  case created
  then show ?thesis by (simp add: ext_def counted_def)
qed

lemma processUser_grows:
  assumes "processUser dp alone row s = (r, s')"
  shows "ext (db s) (db s') \<and> counted s s'"
  using assms
proof (cases rule: processUser_alone)
  case (found x)
  then show ?thesis by (simp add: ext_def counted_def)
next
  case (failed e)
  then show ?thesis by (simp add: ext_def counted_def)
next
  case created
  then show ?thesis by (simp add: ext_def counted_def)
qed

lemma processAccount_grows:
  assumes "processAccount alone row user s = (r, s')"
  shows "ext (db s) (db s') \<and> counted s s'"
  using assms
proof (cases rule: processAccount_alone)
  case (found x)
  then show ?thesis by (simp add: ext_def counted_def)
next
  case (failed e)
  then show ?thesis by (simp add: ext_def counted_def)
next
  case created
  then show ?thesis by (simp add: ext_def counted_def)
qed

lemma processCategory_grows:
  assumes "processCategory alone row s = (r, s')"
  shows "ext (db s) (db s') \<and> counted s s'"
  using assms
proof (cases rule: processCategory_alone)
  case (found x)
  then show ?thesis by (simp add: ext_def counted_def)
next
  case (failed e)
  then show ?thesis by (simp add: ext_def counted_def)
next
  case created
  then show ?thesis by (simp add: ext_def counted_def)
qed

lemma processCarrier_grows:
  assumes "processCarrier alone row s = (r, s')"
  shows "ext (db s) (db s') \<and> counted s s'"
  using assms
proof (cases rule: processCarrier_alone)
  case (found x)
  then show ?thesis by (simp add: ext_def counted_def)
next
  case (failed e)
  then show ?thesis by (simp add: ext_def counted_def)
next
  case created
  then show ?thesis by (simp add: ext_def counted_def)
qed

lemma processPolicy_grows:
  assumes "processPolicy dp alone row user account category carrier agent s = (r, s')"
  shows "ext (db s) (db s') \<and> counted s s'"
  using assms
proof (cases rule: processPolicy_alone)
  case (found x)
  then show ?thesis by (simp add: ext_def counted_def)
next
  case (failed e)
  then show ?thesis by (simp add: ext_def counted_def)
next
  case created
  then show ?thesis by (simp add: ext_def counted_def)
qed

lemmas step_grows =
  processAgent_grows processUser_grows processAccount_grows processCategory_grows
  processCarrier_grows processPolicy_grows

lemma processRow_grows:
  assumes "processRow dp alone row s = (r, s')"
  shows "ext (db s) (db s') \<and> counted s s'"
  using assms
  by (cases rule: processRow_cases) (meson step_grows ext_trans counted_trans)+

lemma processRows_grows:
  "processRows dp alone rows s = (r, s') \<Longrightarrow> ext (db s) (db s') \<and> counted s s'"
proof (induction rows arbitrary: s)
  case Nil
  then show ?case by (simp add: ext_refl counted_refl)
next
  case (Cons row rows)
  obtain r1 s1 where 1: "processRow dp alone row s = (r1, s1)"
    by (cases "processRow dp alone row s")
  from processRow_grows [OF 1] have g1: "ext (db s) (db s1)" "counted s s1" by simp_all
  show ?case
  proof (cases r1)
    case (Inl e)
    with 1 Cons.prems have "s' = s1" by simp
    with g1 show ?thesis by simp
  next
    case (Inr u)
    with 1 Cons.prems have "processRows dp alone rows s1 = (r, s')" by simp
    from Cons.IH [OF this] g1 show ?thesis
      by (meson ext_trans counted_trans)
  qed
qed

section \<open>What a step leaves behind is found again\<close>

lemma processAgent_finds:
  assumes "processAgent alone row s = (Inr x, s')"
  shows "findOne (Agents (db s')) (\<lambda>a. Agent_name a = row ''agent'') = Some x"
  using assms
proof (cases rule: processAgent_alone)
  case (found y)
  then show ?thesis by simp
next
  case (failed e)
  then show ?thesis by simp
next
  case created
  then show ?thesis by (simp add: findOne_snoc agentObject_def)
qed

lemma processUser_finds:
  assumes "processUser dp alone row s = (Inr x, s')"
  shows "findOne (Users (db s')) (\<lambda>u. User_firstname u = row ''firstname'' \<and> User_email u = row ''email'') = Some x"
  using assms
proof (cases rule: processUser_alone)
  case (found y)
  then show ?thesis by simp
next
  case (failed e)
  then show ?thesis by simp
next
  case created
  then show ?thesis by (simp add: findOne_snoc userObject_def)
qed

lemma processAccount_finds:
  assumes "processAccount alone row user s = (Inr x, s')"
  shows "findOne (Accounts (db s')) (\<lambda>a. Account_name a = row ''account_name'' \<and> Account_user_id a = Some (fst user)) = Some x"
  using assms
proof (cases rule: processAccount_alone)
  case (found y)
  then show ?thesis by simp
next
  case (failed e)
  then show ?thesis by simp
next
  case created
  then show ?thesis by (simp add: findOne_snoc accountObject_def)
qed

lemma processCategory_finds:
  assumes "processCategory alone row s = (Inr x, s')"
  shows "findOne (Categories (db s')) (\<lambda>c. Category_name c = row ''category_name'') = Some x"
  using assms
proof (cases rule: processCategory_alone)
  case (found y)
  then show ?thesis by simp
next
  case (failed e)
  then show ?thesis by simp
next
  case created
  then show ?thesis by (simp add: findOne_snoc categoryObject_def)
qed

lemma processCarrier_finds:
  assumes "processCarrier alone row s = (Inr x, s')"
  shows "findOne (Carriers (db s')) (\<lambda>c. Carrier_name c = row ''company_name'') = Some x"
  using assms
proof (cases rule: processCarrier_alone)
  case (found y)
  then show ?thesis by simp
next
  case (failed e)
  then show ?thesis by simp
next
  case created
  then show ?thesis by (simp add: findOne_snoc carrierObject_def)
qed

lemma processPolicy_finds:
  assumes "processPolicy dp alone row user account category carrier agent s = (Inr x, s')"
  shows "findOne (Policies (db s')) (\<lambda>p. Policy_policy_number p = row ''policy_number'') = Some x"
  using assms
proof (cases rule: processPolicy_alone)
  case (found y)
  then show ?thesis by simp
next
  case (failed e)
  then show ?thesis by simp
next
  case created
  then show ?thesis by (simp add: findOne_snoc policyObject_def)
qed

lemma ingested_ext:
  assumes "ingested row d" and "ext d d'"
  shows "ingested row d'"
proof -
  from assms(1) obtain a u ac cg cr p where f:
    "findOne (Agents d) (\<lambda>a. Agent_name a = row ''agent'') = Some a"
    "findOne (Users d)
       (\<lambda>u. User_firstname u = row ''firstname'' \<and> User_email u = row ''email'') = Some u"
    "findOne (Accounts d)
       (\<lambda>a. Account_name a = row ''account_name'' \<and> Account_user_id a = Some (fst u)) = Some ac"
    "findOne (Categories d) (\<lambda>c. Category_name c = row ''category_name'') = Some cg"
    "findOne (Carriers d) (\<lambda>c. Carrier_name c = row ''company_name'') = Some cr"
    "findOne (Policies d) (\<lambda>p. Policy_policy_number p = row ''policy_number'') = Some p"
    unfolding ingested_def by (auto split: option.splits)
  from assms(2) have p:
    "prefix (Agents d) (Agents d')" "prefix (Users d) (Users d')"
    "prefix (Accounts d) (Accounts d')" "prefix (Categories d) (Categories d')"
    "prefix (Carriers d) (Carriers d')" "prefix (Policies d) (Policies d')"
    by (simp_all add: ext_def)
  show ?thesis
    unfolding ingested_def
    by (simp add: findOne_prefix [OF p(1) f(1)] findOne_prefix [OF p(2) f(2)]
          findOne_prefix [OF p(3) f(3)] findOne_prefix [OF p(4) f(4)]
          findOne_prefix [OF p(5) f(5)] findOne_prefix [OF p(6) f(6)])
qed

lemma ingested_after:
  assumes "processRow dp alone row s = (Inr u, s')"
  shows "ingested row (db s')"
proof -
  from assms obtain agent s1 user s2 account s3 category s4 carrier s5 policy where st:
    "processAgent alone row s = (Inr agent, s1)"
    "processUser dp alone row s1 = (Inr user, s2)"
    "processAccount alone row user s2 = (Inr account, s3)"
    "processCategory alone row s3 = (Inr category, s4)"
    "processCarrier alone row s4 = (Inr carrier, s5)"
    "processPolicy dp alone row user account category carrier agent s5 = (Inr policy, s')"
    by (rule processRow_Inr)
  have e5: "ext (db s5) (db s')" using step_grows(6) [OF st(6)] by simp
  have e4: "ext (db s4) (db s')" using step_grows(5) [OF st(5)] e5 by (meson ext_trans)
  have e3: "ext (db s3) (db s')" using step_grows(4) [OF st(4)] e4 by (meson ext_trans)
  have e2: "ext (db s2) (db s')" using step_grows(3) [OF st(3)] e3 by (meson ext_trans)
  have e1: "ext (db s1) (db s')" using step_grows(2) [OF st(2)] e2 by (meson ext_trans)
  have "findOne (Agents (db s')) (\<lambda>a. Agent_name a = row ''agent'') = Some agent"
    using processAgent_finds [OF st(1)] e1 by (auto simp: ext_def intro: findOne_prefix)
  moreover have "findOne (Users (db s'))
       (\<lambda>u. User_firstname u = row ''firstname'' \<and> User_email u = row ''email'') = Some user"
    using processUser_finds [OF st(2)] e2 by (auto simp: ext_def intro: findOne_prefix)
  moreover have "findOne (Accounts (db s'))
       (\<lambda>a. Account_name a = row ''account_name'' \<and> Account_user_id a = Some (fst user))
       = Some account"
    using processAccount_finds [OF st(3)] e3 by (auto simp: ext_def intro: findOne_prefix)
  moreover have "findOne (Categories (db s')) (\<lambda>c. Category_name c = row ''category_name'')
       = Some category"
    using processCategory_finds [OF st(4)] e4 by (auto simp: ext_def intro: findOne_prefix)
  moreover have "findOne (Carriers (db s')) (\<lambda>c. Carrier_name c = row ''company_name'')
       = Some carrier"
    using processCarrier_finds [OF st(5)] e5 by (auto simp: ext_def intro: findOne_prefix)
  moreover have "findOne (Policies (db s'))
       (\<lambda>p. Policy_policy_number p = row ''policy_number'') = Some policy"
    using processPolicy_finds [OF st(6)] by simp
  ultimately show ?thesis by (simp add: ingested_def)
qed

lemma ingested_noop:
  assumes "ingested row (db s)"
  shows "processRow dp alone row s =
     (Inr (), s\<lparr>calls := calls s @ [FindOne KAgent, FindOne KUser, FindOne KAccount,
                                    FindOne KCategory, FindOne KCarrier, FindOne KPolicy]\<rparr>)"
proof -
  from assms obtain a u ac cg cr p where f:
    "findOne (Agents (db s)) (\<lambda>a. Agent_name a = row ''agent'') = Some a"
    "findOne (Users (db s))
       (\<lambda>u. User_firstname u = row ''firstname'' \<and> User_email u = row ''email'') = Some u"
    "findOne (Accounts (db s))
       (\<lambda>a. Account_name a = row ''account_name'' \<and> Account_user_id a = Some (fst u)) = Some ac"
    "findOne (Categories (db s)) (\<lambda>c. Category_name c = row ''category_name'') = Some cg"
    "findOne (Carriers (db s)) (\<lambda>c. Carrier_name c = row ''company_name'') = Some cr"
    "findOne (Policies (db s)) (\<lambda>p. Policy_policy_number p = row ''policy_number'') = Some p"
    unfolding ingested_def by (auto split: option.splits)
  then show ?thesis
    by (simp add: processRow_def andThen_def processAgent_def processUser_def
          processAccount_def processCategory_def processCarrier_def processPolicy_def
          findOrCreate_def)
qed

lemma processRows_ingested:
  "processRows dp alone rows s = (Inr u, s') \<Longrightarrow> \<forall>row \<in> set rows. ingested row (db s')"
proof (induction rows arbitrary: s)
  case Nil
  then show ?case by simp
next
  case (Cons row rows)
  obtain r1 s1 where 1: "processRow dp alone row s = (r1, s1)"
    by (cases "processRow dp alone row s")
  with Cons.prems obtain u1 where r1: "r1 = Inr u1"
    by (cases r1) auto
  with 1 Cons.prems have 2: "processRows dp alone rows s1 = (Inr u, s')" by simp
  from 1 r1 have "ingested row (db s1)" by (simp add: ingested_after)
  moreover from processRows_grows [OF 2] have "ext (db s1) (db s')" by simp
  ultimately have "ingested row (db s')" by (rule ingested_ext)
  with Cons.IH [OF 2] show ?case by simp
qed

lemma processRows_noop:
  assumes "\<forall>row \<in> set rows. ingested row (db s)"
  shows "\<exists>finds. processRows dp alone rows s = (Inr (), s\<lparr>calls := calls s @ finds\<rparr>)
           \<and> list_all isFindOne finds"
  using assms
proof (induction rows arbitrary: s)
  case Nil
  have "processRows dp alone [] s = (Inr (), s\<lparr>calls := calls s @ []\<rparr>)
      \<and> list_all isFindOne []" by simp
  then show ?case by blast
next
  case (Cons row rows)
  let ?six = "[FindOne KAgent, FindOne KUser, FindOne KAccount,
               FindOne KCategory, FindOne KCarrier, FindOne KPolicy]"
  let ?s1 = "s\<lparr>calls := calls s @ ?six\<rparr>"
  from Cons.prems have 1: "processRow dp alone row s = (Inr (), ?s1)"
    by (simp add: ingested_noop)
  from Cons.prems have "\<forall>row \<in> set rows. ingested row (db ?s1)" by simp
  from Cons.IH [OF this] obtain finds where
    2: "processRows dp alone rows ?s1 = (Inr (), ?s1\<lparr>calls := calls ?s1 @ finds\<rparr>)"
    and 3: "list_all isFindOne finds" by blast
  from 1 2 have "processRows dp alone (row # rows) s = (Inr (), s\<lparr>calls := calls s @ (?six @ finds)\<rparr>)"
    by simp
  moreover from 3 have "list_all isFindOne (?six @ finds)" by (simp add: isFindOne_def)
  ultimately show ?case by blast
qed

lemma run_rowB_after_rowA: "processRow isoDate alone rowB stateA = (Inr (), stateAB)"
  by (simp add: js_defs store_defs worker_defs rowB_fields stateA_def stateAB_def)

lemma run_rowA_rowB:
  "processRows isoDate alone [rowA, rowB] (start store0) = (Inr (), stateAB)"
  by (simp add: run_rowA run_rowB_after_rowA)

section \<open>Running a batch twice\<close>

lemma buffer_rows:
  "\<not> ended w \<Longrightarrow>
     foldl (onEvent dp others close) w (map Data rows) = w\<lparr>results := results w @ rows\<rparr>"
  by (induction rows arbitrary: w) (simp_all add: onEvent_def)

lemma processFile_buffered:
  "processFile dp others close (map Data rows @ [ev]) d =
     onEvent dp others close
       \<lparr>results = rows, rejected = None, st = start d, out = [], ended = False\<rparr> ev"
  by (simp add: processFile_def buffer_rows)

text \<open>
  C3. If a run of the batch \<open>rows\<close> on database \<open>d\<close> completes, then a second run of
  the same rows on the database the first run left completes too, every store call
  it makes is a \<^verbatim>\<open>findOne\<close> (nothing is created), the database is unchanged, all
  six counters are zero and the stats the worker sends are those zeros. In the first run, and in any run at all (also one that
  stops at an error), each counter equals the number of documents its collection has
  gained.
\<close>

theorem second_run_creates_nothing:
  assumes "processRows dp alone rows (start d) = (Inr u, s1)"
  shows "fst (processRows dp alone rows (start (db s1))) = Inr ()
       \<and> db (snd (processRows dp alone rows (start (db s1)))) = db s1
       \<and> stats (snd (processRows dp alone rows (start (db s1)))) = stats0
       \<and> list_all isFindOne (calls (snd (processRows dp alone rows (start (db s1)))))
       \<and> out (processFile dp alone None (map Data rows @ [End]) (db s1))
           = [Message (StatsPayload stats0), Exit 0]
       \<and> counted (start d) s1
       \<and> counted (start d') (snd (processRows dp alone rows' (start d')))"
proof -
  from assms have "\<forall>row \<in> set rows. ingested row (db s1)"
    by (rule processRows_ingested)
  then have "\<forall>row \<in> set rows. ingested row (db (start (db s1)))"
    by (simp add: start_def)
  from processRows_noop [OF this, of dp] obtain finds where
    "processRows dp alone rows (start (db s1)) =
       (Inr (), (start (db s1))\<lparr>calls := calls (start (db s1)) @ finds\<rparr>)"
    and "list_all isFindOne finds" by blast
  then have "fst (processRows dp alone rows (start (db s1))) = Inr ()"
    and "db (snd (processRows dp alone rows (start (db s1)))) = db s1"
    and "stats (snd (processRows dp alone rows (start (db s1)))) = stats0"
    and "list_all isFindOne (calls (snd (processRows dp alone rows (start (db s1)))))"
    and "out (processFile dp alone None (map Data rows @ [End]) (db s1))
           = [Message (StatsPayload stats0), Exit 0]"
    by (simp_all add: start_def processFile_buffered onEvent_def onEnd_def)
  moreover from assms have "counted (start d) s1"
    by (simp add: processRows_grows)
  moreover have "counted (start d') (snd (processRows dp alone rows' (start d')))"
    by (cases "processRows dp alone rows' (start d')") (simp add: processRows_grows)
  ultimately show ?thesis by simp
qed

text \<open>The batch \<open>rowA\<close>, \<open>rowB\<close> on the empty database: the first run creates two agents,
  users and accounts, one category, carrier and policy; the second run creates
  nothing.\<close>

theorem second_run_creates_nothing_witness:
  "processRows isoDate alone [rowA, rowB] (start store0) = (Inr (), stateAB)
   \<and> stats stateAB =
       \<lparr>agents = 2, users = 2, accounts = 2, categories = 1, carriers = 1, policies = 1\<rparr>
   \<and> fst (processRows isoDate alone [rowA, rowB] (start (db stateAB))) = Inr ()
   \<and> db (snd (processRows isoDate alone [rowA, rowB] (start (db stateAB)))) = db stateAB
   \<and> stats (snd (processRows isoDate alone [rowA, rowB] (start (db stateAB)))) = stats0
   \<and> list_all isFindOne (calls (snd (processRows isoDate alone [rowA, rowB] (start (db stateAB)))))
   \<and> out (processFile isoDate alone None (map Data [rowA, rowB] @ [End]) (db stateAB))
       = [Message (StatsPayload stats0), Exit 0]
   \<and> counted (start store0) stateAB"
  using second_run_creates_nothing [OF run_rowA_rowB] run_rowA_rowB
  by (simp add: stateAB_def)

section \<open>What a step does not touch\<close>







section \<open>Dates\<close>







section \<open>Two rows with one policy number\<close>



















section \<open>The order of the store calls, and the references of a Policy\<close>

lemma findOrCreate_calls:
  assumes "findOrCreate k findIt createIt incr others s = (r, s')"
  shows "\<exists>m. calls s' = calls s @ FindOne k # replicate m (Create k)"
  using assms
proof (cases rule: findOrCreate_cases)
  case (found d)
  then have "calls s' = calls s @ FindOne k # replicate 0 (Create k)" by simp
  then show ?thesis by blast
next
  case (failed e)
  then have "calls s' = calls s @ FindOne k # replicate 1 (Create k)" by simp
  then show ?thesis by blast
next
  case (created d db')
  then have "calls s' = calls s @ FindOne k # replicate 1 (Create k)" by simp
  then show ?thesis by blast
qed

lemma kinds_step: "remdups_adj (k # replicate m k @ ks) = remdups_adj (k # ks)"
  by (induction m) simp_all

lemma kinds_last_step: "remdups_adj (k # replicate m k) = [k]"
  using kinds_step [of k m "[]"] by simp

lemma call_kind_simps: "call_kind (FindOne k) = k" "call_kind (Create k) = k"
  by (simp_all add: call_kind_def)

lemma processAgent_calls:
  assumes "processAgent others row s = (r, s')"
  shows "\<exists>m. calls s' = calls s @ FindOne KAgent # replicate m (Create KAgent)"
  using assms unfolding processAgent_def by (rule findOrCreate_calls)

lemma processUser_calls:
  assumes "processUser dp others row s = (r, s')"
  shows "\<exists>m. calls s' = calls s @ FindOne KUser # replicate m (Create KUser)"
  using assms unfolding processUser_def by (rule findOrCreate_calls)

lemma processAccount_calls:
  assumes "processAccount others row user s = (r, s')"
  shows "\<exists>m. calls s' = calls s @ FindOne KAccount # replicate m (Create KAccount)"
  using assms unfolding processAccount_def by (rule findOrCreate_calls)

lemma processCategory_calls:
  assumes "processCategory others row s = (r, s')"
  shows "\<exists>m. calls s' = calls s @ FindOne KCategory # replicate m (Create KCategory)"
  using assms unfolding processCategory_def by (rule findOrCreate_calls)

lemma processCarrier_calls:
  assumes "processCarrier others row s = (r, s')"
  shows "\<exists>m. calls s' = calls s @ FindOne KCarrier # replicate m (Create KCarrier)"
  using assms unfolding processCarrier_def by (rule findOrCreate_calls)

lemma processPolicy_calls:
  assumes "processPolicy dp others row user account category carrier agent s = (r, s')"
  shows "\<exists>m. calls s' = calls s @ FindOne KPolicy # replicate m (Create KPolicy)"
  using assms unfolding processPolicy_def by (rule findOrCreate_calls)

lemma processAgent_ids_ok:
  assumes "processAgent alone row s = (r, s')" and "ids_ok (db s)"
  shows "ids_ok (db s')"
  using assms(1)
proof (cases rule: processAgent_alone)
  case (found x)
  with assms(2) show ?thesis by simp
next
  case (failed e)
  with assms(2) show ?thesis by simp
next
  case created
  with assms(2) show ?thesis
    by (auto simp: ids_ok_def list_all_iff less_Suc_eq)
qed

lemma processUser_ids_ok:
  assumes "processUser dp alone row s = (r, s')" and "ids_ok (db s)"
  shows "ids_ok (db s')"
  using assms(1)
proof (cases rule: processUser_alone)
  case (found x)
  with assms(2) show ?thesis by simp
next
  case (failed e)
  with assms(2) show ?thesis by simp
next
  case created
  with assms(2) show ?thesis
    by (auto simp: ids_ok_def list_all_iff less_Suc_eq)
qed

lemma processAccount_ids_ok:
  assumes "processAccount alone row user s = (r, s')" and "ids_ok (db s)"
  shows "ids_ok (db s')"
  using assms(1)
proof (cases rule: processAccount_alone)
  case (found x)
  with assms(2) show ?thesis by simp
next
  case (failed e)
  with assms(2) show ?thesis by simp
next
  case created
  with assms(2) show ?thesis
    by (auto simp: ids_ok_def list_all_iff less_Suc_eq)
qed

lemma processCategory_ids_ok:
  assumes "processCategory alone row s = (r, s')" and "ids_ok (db s)"
  shows "ids_ok (db s')"
  using assms(1)
proof (cases rule: processCategory_alone)
  case (found x)
  with assms(2) show ?thesis by simp
next
  case (failed e)
  with assms(2) show ?thesis by simp
next
  case created
  with assms(2) show ?thesis
    by (auto simp: ids_ok_def list_all_iff less_Suc_eq)
qed

lemma processCarrier_ids_ok:
  assumes "processCarrier alone row s = (r, s')" and "ids_ok (db s)"
  shows "ids_ok (db s')"
  using assms(1)
proof (cases rule: processCarrier_alone)
  case (found x)
  with assms(2) show ?thesis by simp
next
  case (failed e)
  with assms(2) show ?thesis by simp
next
  case created
  with assms(2) show ?thesis
    by (auto simp: ids_ok_def list_all_iff less_Suc_eq)
qed

lemma processPolicy_ids_ok:
  assumes "processPolicy dp alone row user account category carrier agent s = (r, s')" and "ids_ok (db s)"
  shows "ids_ok (db s')"
  using assms(1)
proof (cases rule: processPolicy_alone)
  case (found x)
  with assms(2) show ?thesis by simp
next
  case (failed e)
  with assms(2) show ?thesis by simp
next
  case created
  with assms(2) show ?thesis
    by (auto simp: ids_ok_def list_all_iff less_Suc_eq)
qed

lemmas step_calls =
  processAgent_calls processUser_calls processAccount_calls processCategory_calls
  processCarrier_calls processPolicy_calls

lemma processRow_order:
  assumes "processRow dp others row s = (r, s')"
  shows "prefix (remdups_adj (map call_kind (drop (length (calls s)) (calls s')))) visitingOrder
       \<and> (r = Inr () \<longrightarrow>
            remdups_adj (map call_kind (drop (length (calls s)) (calls s'))) = visitingOrder)"
  using assms
proof (cases rule: processRow_cases)
  case (agent_failed e)
  from step_calls(1) [OF agent_failed(2)] agent_failed(1) show ?thesis
    by (auto simp: kinds_step kinds_last_step call_kind_simps visitingOrder_def)
next
  case (user_failed e agent s1)
  from step_calls(1) [OF user_failed(2)] step_calls(2) [OF user_failed(3)] user_failed(1)
  show ?thesis
    by (auto simp: kinds_step kinds_last_step call_kind_simps visitingOrder_def)
next
  case (account_failed e agent s1 user s2)
  from step_calls(1) [OF account_failed(2)] step_calls(2) [OF account_failed(3)]
    step_calls(3) [OF account_failed(4)] account_failed(1)
  show ?thesis
    by (auto simp: kinds_step kinds_last_step call_kind_simps visitingOrder_def)
next
  case (category_failed e agent s1 user s2 account s3)
  from step_calls(1) [OF category_failed(2)] step_calls(2) [OF category_failed(3)]
    step_calls(3) [OF category_failed(4)] step_calls(4) [OF category_failed(5)]
    category_failed(1)
  show ?thesis
    by (auto simp: kinds_step kinds_last_step call_kind_simps visitingOrder_def)
next
  case (carrier_failed e agent s1 user s2 account s3 category s4)
  from step_calls(1) [OF carrier_failed(2)] step_calls(2) [OF carrier_failed(3)]
    step_calls(3) [OF carrier_failed(4)] step_calls(4) [OF carrier_failed(5)]
    step_calls(5) [OF carrier_failed(6)] carrier_failed(1)
  show ?thesis
    by (auto simp: kinds_step kinds_last_step call_kind_simps visitingOrder_def)
next
  case (policy_failed e agent s1 user s2 account s3 category s4 carrier s5)
  from step_calls(1) [OF policy_failed(2)] step_calls(2) [OF policy_failed(3)]
    step_calls(3) [OF policy_failed(4)] step_calls(4) [OF policy_failed(5)]
    step_calls(5) [OF policy_failed(6)] step_calls(6) [OF policy_failed(7)] policy_failed(1)
  show ?thesis
    by (auto simp: kinds_step kinds_last_step call_kind_simps visitingOrder_def)
next
  case (completed agent s1 user s2 account s3 category s4 carrier s5 policy)
  from step_calls(1) [OF completed(2)] step_calls(2) [OF completed(3)]
    step_calls(3) [OF completed(4)] step_calls(4) [OF completed(5)]
    step_calls(5) [OF completed(6)] step_calls(6) [OF completed(7)]
  show ?thesis
    by (auto simp: kinds_step kinds_last_step call_kind_simps visitingOrder_def)
qed

lemma distinct_fst_unique:
  assumes "distinct (map fst xs)" and "a \<in> set xs" and "x \<in> set xs" and "fst x = fst a"
  shows "x = a"
  using assms by (metis eq_key_imp_eq_value prod.collapse)

lemma created_policy_refs:
  assumes "processRow dp alone row s = (Inr u, s')" and "last (calls s') = Create KPolicy"
  obtains agent user account category carrier and s5 :: state where
    "db s' = (db s5)\<lparr>Policies := Policies (db s5)
               @ [(nextId (db s5), policyObject dp row user account category carrier agent)],
             nextId := Suc (nextId (db s5))\<rparr>"
    "agent \<in> set (Agents (db s5))" "Agent_name (snd agent) = row ''agent''"
    "user \<in> set (Users (db s5))" "User_firstname (snd user) = row ''firstname''"
    "User_email (snd user) = row ''email''"
    "account \<in> set (Accounts (db s5))" "Account_name (snd account) = row ''account_name''"
    "Account_user_id (snd account) = Some (fst user)"
    "category \<in> set (Categories (db s5))" "Category_name (snd category) = row ''category_name''"
    "carrier \<in> set (Carriers (db s5))" "Carrier_name (snd carrier) = row ''company_name''"
    "ids_ok (db s) \<longrightarrow> ids_ok (db s5)"
proof -
  from assms(1) obtain agent s1 user s2 account s3 category s4 carrier s5 policy where st:
    "processAgent alone row s = (Inr agent, s1)"
    "processUser dp alone row s1 = (Inr user, s2)"
    "processAccount alone row user s2 = (Inr account, s3)"
    "processCategory alone row s3 = (Inr category, s4)"
    "processCarrier alone row s4 = (Inr carrier, s5)"
    "processPolicy dp alone row user account category carrier agent s5 = (Inr policy, s')"
    by (rule processRow_Inr)
  have e4: "ext (db s4) (db s5)" using step_grows(5) [OF st(5)] by simp
  have e3: "ext (db s3) (db s5)" using step_grows(4) [OF st(4)] e4 by (meson ext_trans)
  have e2: "ext (db s2) (db s5)" using step_grows(3) [OF st(3)] e3 by (meson ext_trans)
  have e1: "ext (db s1) (db s5)" using step_grows(2) [OF st(2)] e2 by (meson ext_trans)
  have a: "agent \<in> set (Agents (db s5))" "Agent_name (snd agent) = row ''agent''"
    using findOne_Some [OF processAgent_finds [OF st(1)]] e1
    by (auto simp: ext_def dest: set_mono_prefix)
  have b: "user \<in> set (Users (db s5))" "User_firstname (snd user) = row ''firstname''"
    "User_email (snd user) = row ''email''"
    using findOne_Some [OF processUser_finds [OF st(2)]] e2
    by (auto simp: ext_def dest: set_mono_prefix)
  have c: "account \<in> set (Accounts (db s5))" "Account_name (snd account) = row ''account_name''"
    "Account_user_id (snd account) = Some (fst user)"
    using findOne_Some [OF processAccount_finds [OF st(3)]] e3
    by (auto simp: ext_def dest: set_mono_prefix)
  have d: "category \<in> set (Categories (db s5))"
    "Category_name (snd category) = row ''category_name''"
    using findOne_Some [OF processCategory_finds [OF st(4)]] e4
    by (auto simp: ext_def dest: set_mono_prefix)
  have e: "carrier \<in> set (Carriers (db s5))" "Carrier_name (snd carrier) = row ''company_name''"
    using findOne_Some [OF processCarrier_finds [OF st(5)]] by auto
  have i: "ids_ok (db s) \<longrightarrow> ids_ok (db s5)"
    using processAgent_ids_ok [OF st(1)] processUser_ids_ok [OF st(2)]
      processAccount_ids_ok [OF st(3)] processCategory_ids_ok [OF st(4)]
      processCarrier_ids_ok [OF st(5)] by blast
  from st(6) show thesis
  proof (cases rule: processPolicy_alone)
    case (found x)
    with assms(2) show ?thesis by simp
  next
    case (failed e)
    then show ?thesis by simp
  next
    case created
    show ?thesis by (rule that [OF created(4) a b c d e i])
  qed
qed

text \<open>
  C2. Processing a row makes its store calls in the order Agent, User, Account,
  Category, Carrier, Policy (each model's \<^verbatim>\<open>findOne\<close>, then its \<^verbatim>\<open>create\<close> if there
  is one): merged by model, the calls of the row are a prefix of that order, and all
  of it when the row completes. When the row creates its Policy, the database \<open>s5\<close> in
  which \<^verbatim>\<open>Policy.create\<close> runs holds an Agent, a User, an Account, a Category and a
  Carrier that match the row's own lookup keys (the Account belonging to that User),
  the five references of the Policy are non-null and are their \<^verbatim>\<open>_id\<close>s, and the
  database afterwards is \<open>s5\<close> with the Policy appended. If \<^verbatim>\<open>_id\<close>s were unique before
  the row, each reference denotes exactly one document.
\<close>

theorem fixed_order_and_references:
  assumes "processRow dp alone row s = (r, s')"
  shows "prefix (remdups_adj (map call_kind (drop (length (calls s)) (calls s')))) visitingOrder
       \<and> (r = Inr () \<longrightarrow>
            remdups_adj (map call_kind (drop (length (calls s)) (calls s'))) = visitingOrder)
       \<and> (r = Inr () \<and> last (calls s') = Create KPolicy \<longrightarrow>
            (\<exists>agent user account category carrier d5.
               db s' = d5\<lparr>Policies := Policies d5 @ [last (Policies (db s'))],
                          nextId := Suc (nextId d5)\<rparr>
               \<and> agent \<in> set (Agents d5) \<and> Agent_name (snd agent) = row ''agent''
               \<and> Policy_agent_id (snd (last (Policies (db s')))) = Some (fst agent)
               \<and> user \<in> set (Users d5) \<and> User_firstname (snd user) = row ''firstname''
               \<and> User_email (snd user) = row ''email''
               \<and> Policy_user_id (snd (last (Policies (db s')))) = Some (fst user)
               \<and> account \<in> set (Accounts d5)
               \<and> Account_name (snd account) = row ''account_name''
               \<and> Account_user_id (snd account) = Some (fst user)
               \<and> Policy_account_id (snd (last (Policies (db s')))) = Some (fst account)
               \<and> category \<in> set (Categories d5)
               \<and> Category_name (snd category) = row ''category_name''
               \<and> Policy_category_id (snd (last (Policies (db s')))) = Some (fst category)
               \<and> carrier \<in> set (Carriers d5)
               \<and> Carrier_name (snd carrier) = row ''company_name''
               \<and> Policy_carrier_id (snd (last (Policies (db s')))) = Some (fst carrier)
               \<and> (ids_ok (db s) \<longrightarrow>
                    (\<forall>x \<in> set (Agents d5). fst x = fst agent \<longrightarrow> x = agent)
                    \<and> (\<forall>x \<in> set (Users d5). fst x = fst user \<longrightarrow> x = user)
                    \<and> (\<forall>x \<in> set (Accounts d5). fst x = fst account \<longrightarrow> x = account)
                    \<and> (\<forall>x \<in> set (Categories d5). fst x = fst category \<longrightarrow> x = category)
                    \<and> (\<forall>x \<in> set (Carriers d5). fst x = fst carrier \<longrightarrow> x = carrier))))"
proof (intro conjI impI)
  from processRow_order [OF assms]
  show "prefix (remdups_adj (map call_kind (drop (length (calls s)) (calls s')))) visitingOrder"
    by simp
next
  assume "r = Inr ()"
  with processRow_order [OF assms]
  show "remdups_adj (map call_kind (drop (length (calls s)) (calls s'))) = visitingOrder"
    by simp
next
  assume c: "r = Inr () \<and> last (calls s') = Create KPolicy"
  with assms have run: "processRow dp alone row s = (Inr (), s')"
    and l: "last (calls s') = Create KPolicy" by simp_all
  from run l obtain agent user account category carrier and s5 :: state where f:
    "db s' = (db s5)\<lparr>Policies := Policies (db s5)
               @ [(nextId (db s5), policyObject dp row user account category carrier agent)],
             nextId := Suc (nextId (db s5))\<rparr>"
    "agent \<in> set (Agents (db s5))" "Agent_name (snd agent) = row ''agent''"
    "user \<in> set (Users (db s5))" "User_firstname (snd user) = row ''firstname''"
    "User_email (snd user) = row ''email''"
    "account \<in> set (Accounts (db s5))" "Account_name (snd account) = row ''account_name''"
    "Account_user_id (snd account) = Some (fst user)"
    "category \<in> set (Categories (db s5))" "Category_name (snd category) = row ''category_name''"
    "carrier \<in> set (Carriers (db s5))" "Carrier_name (snd carrier) = row ''company_name''"
    "ids_ok (db s) \<longrightarrow> ids_ok (db s5)"
    by (rule created_policy_refs)
  let ?p = "snd (last (Policies (db s')))"
  from f(1) have lastp: "last (Policies (db s'))
      = (nextId (db s5), policyObject dp row user account category carrier agent)"
    by simp
  with f(1) have 1: "db s' = (db s5)\<lparr>Policies := Policies (db s5) @ [last (Policies (db s'))],
      nextId := Suc (nextId (db s5))\<rparr>"
    by simp
  from lastp have 2: "Policy_agent_id ?p = Some (fst agent)" "Policy_user_id ?p = Some (fst user)"
    "Policy_account_id ?p = Some (fst account)" "Policy_category_id ?p = Some (fst category)"
    "Policy_carrier_id ?p = Some (fst carrier)"
    by (simp_all add: policyObject_def)
  have 3: "ids_ok (db s) \<longrightarrow>
      (\<forall>x \<in> set (Agents (db s5)). fst x = fst agent \<longrightarrow> x = agent)
      \<and> (\<forall>x \<in> set (Users (db s5)). fst x = fst user \<longrightarrow> x = user)
      \<and> (\<forall>x \<in> set (Accounts (db s5)). fst x = fst account \<longrightarrow> x = account)
      \<and> (\<forall>x \<in> set (Categories (db s5)). fst x = fst category \<longrightarrow> x = category)
      \<and> (\<forall>x \<in> set (Carriers (db s5)). fst x = fst carrier \<longrightarrow> x = carrier)"
  proof
    assume "ids_ok (db s)"
    with f(14) have "ids_ok (db s5)" by simp
    then have d: "distinct (map fst (Agents (db s5)))" "distinct (map fst (Users (db s5)))"
      "distinct (map fst (Accounts (db s5)))" "distinct (map fst (Categories (db s5)))"
      "distinct (map fst (Carriers (db s5)))"
      by (simp_all add: ids_ok_def)
    show "(\<forall>x \<in> set (Agents (db s5)). fst x = fst agent \<longrightarrow> x = agent)
      \<and> (\<forall>x \<in> set (Users (db s5)). fst x = fst user \<longrightarrow> x = user)
      \<and> (\<forall>x \<in> set (Accounts (db s5)). fst x = fst account \<longrightarrow> x = account)
      \<and> (\<forall>x \<in> set (Categories (db s5)). fst x = fst category \<longrightarrow> x = category)
      \<and> (\<forall>x \<in> set (Carriers (db s5)). fst x = fst carrier \<longrightarrow> x = carrier)"
      using distinct_fst_unique [OF d(1) f(2)] distinct_fst_unique [OF d(2) f(4)]
        distinct_fst_unique [OF d(3) f(7)] distinct_fst_unique [OF d(4) f(10)]
        distinct_fst_unique [OF d(5) f(12)]
      by blast
  qed
  show "\<exists>agent user account category carrier d5.
               db s' = d5\<lparr>Policies := Policies d5 @ [last (Policies (db s'))],
                          nextId := Suc (nextId d5)\<rparr>
               \<and> agent \<in> set (Agents d5) \<and> Agent_name (snd agent) = row ''agent''
               \<and> Policy_agent_id (snd (last (Policies (db s')))) = Some (fst agent)
               \<and> user \<in> set (Users d5) \<and> User_firstname (snd user) = row ''firstname''
               \<and> User_email (snd user) = row ''email''
               \<and> Policy_user_id (snd (last (Policies (db s')))) = Some (fst user)
               \<and> account \<in> set (Accounts d5)
               \<and> Account_name (snd account) = row ''account_name''
               \<and> Account_user_id (snd account) = Some (fst user)
               \<and> Policy_account_id (snd (last (Policies (db s')))) = Some (fst account)
               \<and> category \<in> set (Categories d5)
               \<and> Category_name (snd category) = row ''category_name''
               \<and> Policy_category_id (snd (last (Policies (db s')))) = Some (fst category)
               \<and> carrier \<in> set (Carriers d5)
               \<and> Carrier_name (snd carrier) = row ''company_name''
               \<and> Policy_carrier_id (snd (last (Policies (db s')))) = Some (fst carrier)
               \<and> (ids_ok (db s) \<longrightarrow>
                    (\<forall>x \<in> set (Agents d5). fst x = fst agent \<longrightarrow> x = agent)
                    \<and> (\<forall>x \<in> set (Users d5). fst x = fst user \<longrightarrow> x = user)
                    \<and> (\<forall>x \<in> set (Accounts d5). fst x = fst account \<longrightarrow> x = account)
                    \<and> (\<forall>x \<in> set (Categories d5). fst x = fst category \<longrightarrow> x = category)
                    \<and> (\<forall>x \<in> set (Carriers d5). fst x = fst carrier \<longrightarrow> x = carrier))"
    apply (rule exI [of _ agent], rule exI [of _ user], rule exI [of _ account])
    apply (rule exI [of _ category], rule exI [of _ carrier], rule exI [of _ "db s5"])
    using 1 2 3 f(2-13) by (intro conjI) assumption+
qed

text \<open>\<open>rowA\<close> on the empty database visits the six models in order and creates its
  Policy, whose agent and user references are the \<^verbatim>\<open>_id\<close>s of the Agent and the User
  with the row's names.\<close>

theorem fixed_order_and_references_witness:
  "processRow isoDate alone rowA (start store0) = (Inr (), stateA)
   \<and> last (calls stateA) = Create KPolicy
   \<and> ids_ok (db (start store0))
   \<and> remdups_adj (map call_kind (drop (length (calls (start store0))) (calls stateA)))
       = [KAgent, KUser, KAccount, KCategory, KCarrier, KPolicy]
   \<and> (\<exists>agent user.
         agent \<in> set (Agents (db stateA)) \<and> Agent_name (snd agent) = Some ''Alex Watson''
         \<and> Policy_agent_id (snd (last (Policies (db stateA)))) = Some (fst agent)
         \<and> user \<in> set (Users (db stateA)) \<and> User_firstname (snd user) = Some ''Lura Lucca''
         \<and> Policy_user_id (snd (last (Policies (db stateA)))) = Some (fst user))"
proof -
  have ok: "ids_ok (db (start store0))"
    by (simp add: ids_ok_def start_def store0_def)
  note th = fixed_order_and_references [OF run_rowA]
  from th have order:
    "remdups_adj (map call_kind (drop (length (calls (start store0))) (calls stateA)))
       = [KAgent, KUser, KAccount, KCategory, KCarrier, KPolicy]"
    by (simp add: visitingOrder_def)
  from th lastA obtain agent user d5 where
    d5: "db stateA = d5\<lparr>Policies := Policies d5 @ [last (Policies (db stateA))],
                         nextId := Suc (nextId d5)\<rparr>"
    and a: "agent \<in> set (Agents d5)" "Agent_name (snd agent) = rowA ''agent''"
      "Policy_agent_id (snd (last (Policies (db stateA)))) = Some (fst agent)"
    and u: "user \<in> set (Users d5)" "User_firstname (snd user) = rowA ''firstname''"
      "Policy_user_id (snd (last (Policies (db stateA)))) = Some (fst user)"
    by auto
  have "Agents (db stateA) = Agents d5" and "Users (db stateA) = Users d5"
    by (subst d5, simp)+
  with a u have "agent \<in> set (Agents (db stateA)) \<and> Agent_name (snd agent) = Some ''Alex Watson''
         \<and> Policy_agent_id (snd (last (Policies (db stateA)))) = Some (fst agent)
         \<and> user \<in> set (Users (db stateA)) \<and> User_firstname (snd user) = Some ''Lura Lucca''
         \<and> Policy_user_id (snd (last (Policies (db stateA)))) = Some (fst user)"
    by (simp add: rowA_fields)
  then have "\<exists>agent user.
         agent \<in> set (Agents (db stateA)) \<and> Agent_name (snd agent) = Some ''Alex Watson''
         \<and> Policy_agent_id (snd (last (Policies (db stateA)))) = Some (fst agent)
         \<and> user \<in> set (Users (db stateA)) \<and> User_firstname (snd user) = Some ''Lura Lucca''
         \<and> Policy_user_id (snd (last (Policies (db stateA)))) = Some (fst user)"
    by blast
  with run_rowA lastA ok order show ?thesis by simp
qed

section \<open>Failures: the stream, a row, a rejected create\<close>

text \<open>
  C8. When the stream fails after any number of rows, no store call is made: the
  database, the counters and the call record are as at the start. If the failure is an
  \<^verbatim>\<open>error\<close> event of the parsing stream, the promise is rejected and the only thing
  sent to the parent is \<^verbatim>\<open>{ error: message }\<close>, never a stats object; the upload
  handler answers with that error object in the place of the stats. If the failure is
  an error of the file stream itself, the worker ends with an uncaught exception, the
  parent's promise is rejected and the upload handler answers 500 with the message.
\<close>

theorem stream_failure_no_writes_no_stats:
  "processFile dp others close (map Data rows @ [StreamError e]) d
     = \<lparr>results = rows, rejected = Some e, st = start d,
        out = [Message (ErrorPayload (message e))], ended = False\<rparr>
   \<and> upload dp others close None (Some (map Data rows @ [StreamError e])) d
     = (Some \<lparr>status = 200,
              body = ProcessedBody ''File processed successfully'' (ErrorPayload (message e))\<rparr>, d)
   \<and> processFile dp others close (map Data rows @ [SourceError e]) d
     = \<lparr>results = rows, rejected = None, st = start d,
        out = [WorkerError e, Exit 1], ended = True\<rparr>
   \<and> upload dp others close None (Some (map Data rows @ [SourceError e])) d
     = (Some \<lparr>status = 500, body = ErrorBody (message e)\<rparr>, d)
   \<and> db (start d) = d \<and> stats (start d) = stats0 \<and> calls (start d) = []"
  by (simp add: processFile_buffered onEvent_def reject_def upload_def processCSV_def
        onWorkerEvent_def start_def)

lemma processFile_end_failed:
  assumes "processRows dp others rows (start d) = (Inl e, s')"
  shows "processFile dp others close (map Data rows @ [End]) d
     = \<lparr>results = rows, rejected = Some e, st = s',
        out = [Message (ErrorPayload (message e))], ended = False\<rparr>"
  using assms by (simp add: processFile_buffered onEvent_def onEnd_def reject_def)

text \<open>
  C10. When the loop fails with an error \<open>E\<close> after the stream has been read to its
  end, the one thing the worker sends is the message \<^verbatim>\<open>{ error: E.message }\<close>; the
  parent's promise is resolved with it, and the upload handler (its \<^verbatim>\<open>unlinkSync\<close>
  succeeding) answers 200 with that object as \<^verbatim>\<open>stats\<close>. The writes made before the
  failure stay in the database. A run that completes sends its stats as a message
  in the same way.
\<close>

theorem row_failure_resolves_with_error_object:
  assumes "processRows dp others rows (start d) = (Inl E, s')"
  shows "out (processFile dp others close (map Data rows @ [End]) d)
           = [Message (ErrorPayload (message E))]
       \<and> processCSV (out (processFile dp others close (map Data rows @ [End]) d))
           = Resolved (ErrorPayload (message E))
       \<and> upload dp others close None (Some (map Data rows @ [End])) d
           = (Some \<lparr>status = 200,
                    body = ProcessedBody ''File processed successfully''
                             (ErrorPayload (message E))\<rparr>, db s')
       \<and> (fst (processRows dp others rows' (start d')) = Inr () \<longrightarrow>
            processCSV (out (processFile dp others None (map Data rows' @ [End]) d'))
              = Resolved (StatsPayload (stats (snd (processRows dp others rows' (start d'))))))"
proof -
  have "fst (processRows dp others rows' (start d')) = Inr () \<longrightarrow>
      processCSV (out (processFile dp others None (map Data rows' @ [End]) d'))
        = Resolved (StatsPayload (stats (snd (processRows dp others rows' (start d')))))"
    by (cases "processRows dp others rows' (start d')")
      (simp add: processFile_buffered onEvent_def onEnd_def processCSV_def onWorkerEvent_def)
  then show ?thesis
    by (simp add: processFile_end_failed [OF assms] upload_def processCSV_def
          onWorkerEvent_def)
qed

lemma run_batch_rowD:
  "processRows isoDate alone [rowD] (start store0) =
     (Inl (ValidationError KUser [CastToDateFailed ''dob'']),
      \<lparr>stats = stats0\<lparr>agents := 1\<rparr>,
       db = store0\<lparr>Agents := [(0, \<lparr>Agent_name = Some ''Ty Woodward'', Agent_agency_id = None\<rparr>)],
                  nextId := 1\<rparr>,
       calls = [FindOne KAgent, Create KAgent, FindOne KUser, Create KUser]\<rparr>)"
  by (simp add: run_rowD)

text \<open>The batch of the one row \<open>rowD\<close>: \<^verbatim>\<open>User.create\<close> throws, and the upload is answered
  200 with the error message as \<^verbatim>\<open>stats\<close>; the Agent written before the failure
  stays.\<close>

theorem row_failure_resolves_with_error_object_witness:
  "fst (processRows isoDate alone [rowD] (start store0))
     = Inl (ValidationError KUser [CastToDateFailed ''dob''])
   \<and> upload isoDate alone None None (Some (map Data [rowD] @ [End])) store0
     = (Some \<lparr>status = 200,
              body = ProcessedBody ''File processed successfully''
                (ErrorPayload
                  ''User validation failed: dob: Cast to date failed for value Invalid Date at path dob'')\<rparr>,
        store0\<lparr>Agents := [(0, \<lparr>Agent_name = Some ''Ty Woodward'', Agent_agency_id = None\<rparr>)],
               nextId := 1\<rparr>)"
proof -
  have "message (ValidationError KUser [CastToDateFailed ''dob''])
      = ''User validation failed: dob: Cast to date failed for value Invalid Date at path dob''"
    by (simp add: message_def modelName_def path_message_def)
  with row_failure_resolves_with_error_object [OF run_batch_rowD, of None] show ?thesis
    by (simp del: processRows.simps add: run_batch_rowD)
qed








end
